theory Spec2Isabelle
  imports Main
begin

section \<open>The JavaScript runtime the server relies on\<close>

subsection \<open>Strings\<close>

text \<open>
  JavaScript strings are modelled by \<open>string\<close>. The server only ever inspects ASCII
  characters of them (digits, the plus sign, fixed ASCII phrases), so the difference
  between UTF-16 code units and bytes does not show.

  \<open>startsWith\<close> and \<open>includes_str\<close> are \<open>String.prototype.startsWith\<close> and
  \<open>String.prototype.includes\<close>.
\<close>

definition startsWith :: "string \<Rightarrow> string \<Rightarrow> bool" where
  "startsWith s p = (take (length p) s = p)"

fun includes_str :: "string \<Rightarrow> string \<Rightarrow> bool" where
  "includes_str [] p = (p = [])"
| "includes_str (c # cs) p = (startsWith (c # cs) p \<or> includes_str cs p)"

text \<open>A value is falsy when it is \<open>undefined\<close> (absent) or the empty string.\<close>

fun truthy :: "string option \<Rightarrow> bool" where
  "truthy None = False"
| "truthy (Some s) = (s \<noteq> [])"

subsection \<open>Dates\<close>

text \<open>
  A \<open>Date\<close> holds a time value, the number of milliseconds since the epoch, or is
  invalid (its time value is NaN). The functions below are those of ECMA-262, section
  "Date Objects"; they belong to the runtime, not to the repository. Time values are
  unbounded integers: the limit of 8.64e15 ms that \<open>TimeClip\<close> enforces (the year 275760)
  is not modelled.
\<close>

datatype jsdate = Invalid | Instant int

definition msPerDay :: int where
  "msPerDay = 86400000"

definition Day :: "int \<Rightarrow> int" where
  "Day t = t div msPerDay"

definition TimeWithinDay :: "int \<Rightarrow> int" where
  "TimeWithinDay t = t mod msPerDay"

definition DayFromYear :: "int \<Rightarrow> int" where
  "DayFromYear y =
     365 * (y - 1970) + (y - 1969) div 4 - (y - 1901) div 100 + (y - 1601) div 400"

definition DaysInYear :: "int \<Rightarrow> int" where
  "DaysInYear y =
     (if y mod 4 \<noteq> 0 then 365
      else if y mod 100 \<noteq> 0 then 366
      else if y mod 400 \<noteq> 0 then 365
      else 366)"

text \<open>
  ECMA-262 defines \<open>YearFromTime t\<close> as the largest \<open>y\<close> with
  \<open>msPerDay * DayFromYear y \<le> t\<close>. The executable form counts whole cycles of 400,
  100, 4 and 1 years from 1 January 1601, the day \<open>DayFromYear 1601 = -134774\<close>;
  \<open>YearFromTime_lower\<close> and \<open>YearFromTime_largest\<close> below show that it is that year.
\<close>

definition YearFromTime :: "int \<Rightarrow> int" where
  "YearFromTime t =
     (let n = Day t + 134774;
          n400 = n div 146097;
          r400 = n mod 146097;
          n100 = min 3 (r400 div 36524);
          r100 = r400 - n100 * 36524;
          n4 = r100 div 1461;
          r4 = r100 mod 1461;
          n1 = min 3 (r4 div 365)
      in 1601 + 400 * n400 + 100 * n100 + 4 * n4 + n1)"

definition InLeapYear :: "int \<Rightarrow> int" where
  "InLeapYear t = (if DaysInYear (YearFromTime t) = 366 then 1 else 0)"

definition DayWithinYear :: "int \<Rightarrow> int" where
  "DayWithinYear t = Day t - DayFromYear (YearFromTime t)"

text \<open>
  \<open>firstDayOfMonth m leap\<close> is the day within the year on which month \<open>m\<close> (0 to 11)
  begins; these are the thresholds of the table that defines \<open>MonthFromTime\<close>.
\<close>

definition firstDayOfMonth :: "int \<Rightarrow> int \<Rightarrow> int" where
  "firstDayOfMonth m leap =
     (if m = 0 then 0
      else if m = 1 then 31
      else if m = 2 then 59 + leap
      else if m = 3 then 90 + leap
      else if m = 4 then 120 + leap
      else if m = 5 then 151 + leap
      else if m = 6 then 181 + leap
      else if m = 7 then 212 + leap
      else if m = 8 then 243 + leap
      else if m = 9 then 273 + leap
      else if m = 10 then 304 + leap
      else 334 + leap)"

definition MonthFromTime :: "int \<Rightarrow> int" where
  "MonthFromTime t =
     (let d = DayWithinYear t; leap = InLeapYear t
      in if d < 31 then 0
         else if d < 59 + leap then 1
         else if d < 90 + leap then 2
         else if d < 120 + leap then 3
         else if d < 151 + leap then 4
         else if d < 181 + leap then 5
         else if d < 212 + leap then 6
         else if d < 243 + leap then 7
         else if d < 273 + leap then 8
         else if d < 304 + leap then 9
         else if d < 334 + leap then 10
         else 11)"

definition DateFromTime :: "int \<Rightarrow> int" where
  "DateFromTime t =
     DayWithinYear t - firstDayOfMonth (MonthFromTime t) (InLeapYear t) + 1"

text \<open>
  \<open>MakeDay year month date\<close>: the day number of the first day of the month, found in
  the year \<open>year + month div 12\<close>, plus \<open>date - 1\<close>. A month or a date out of range
  carries over into the following months.
\<close>

definition MakeDay :: "int \<Rightarrow> int \<Rightarrow> int \<Rightarrow> int" where
  "MakeDay year month date =
     (let ym = year + month div 12;
          mn = month mod 12;
          leap = (if DaysInYear ym = 366 then 1 else 0)
      in DayFromYear ym + firstDayOfMonth mn leap + date - 1)"

definition MakeDate :: "int \<Rightarrow> int \<Rightarrow> int" where
  "MakeDate day time = day * msPerDay + time"

text \<open>
  The time zone of the process. The offset of local time from UTC depends on the instant
  (daylight saving time), and the runtime takes it from its time zone data:
  \<open>offsetAt z t\<close> is the offset in milliseconds in force at the UTC time value \<open>t\<close>
  (\<open>LocalTZA(t, true)\<close>), \<open>offsetOfLocal z lt\<close> the offset the runtime uses to read the
  local time value \<open>lt\<close> back (\<open>LocalTZA(lt, false)\<close>: for a local time that a clock
  change skips it is the offset before the change, for one that occurs twice the offset
  of the first occurrence). Both are parameters of the model, and nothing is assumed
  about them.
\<close>

record timezone =
  offsetAt :: "int \<Rightarrow> int"
  offsetOfLocal :: "int \<Rightarrow> int"

definition LocalTime :: "timezone \<Rightarrow> int \<Rightarrow> int" where
  "LocalTime tz t = t + offsetAt tz t"

definition UTC :: "timezone \<Rightarrow> int \<Rightarrow> int" where
  "UTC tz lt = lt - offsetOfLocal tz lt"

definition getDate :: "timezone \<Rightarrow> int \<Rightarrow> int" where
  "getDate tz t = DateFromTime (LocalTime tz t)"

definition getMonth :: "timezone \<Rightarrow> int \<Rightarrow> int" where
  "getMonth tz t = MonthFromTime (LocalTime tz t)"

definition setDate :: "timezone \<Rightarrow> int \<Rightarrow> int \<Rightarrow> int" where
  "setDate tz t dt =
     (let lt = LocalTime tz t
      in UTC tz (MakeDate (MakeDay (YearFromTime lt) (MonthFromTime lt) dt)
                          (TimeWithinDay lt)))"

definition setMonth :: "timezone \<Rightarrow> int \<Rightarrow> int \<Rightarrow> int" where
  "setMonth tz t m =
     (let lt = LocalTime tz t
      in UTC tz (MakeDate (MakeDay (YearFromTime lt) m (DateFromTime lt))
                          (TimeWithinDay lt)))"

text \<open>The number of days of month \<open>m\<close> (0 to 11), used to state what one month adds.\<close>

definition DaysInMonth :: "int \<Rightarrow> int \<Rightarrow> int" where
  "DaysInMonth m leap =
     (if m = 1 then 28 + leap
      else if m = 3 \<or> m = 5 \<or> m = 8 \<or> m = 10 then 30
      else 31)"

section \<open>Helper functions of the server\<close>

text \<open>
  \<open>formatPhoneNumber\<close>: \<open>phone.replace(/[^0-9+]/g, '')\<close> keeps the digits and the plus
  signs; one leading plus sign is then dropped and the suffix \<open>@c.us\<close> appended.
\<close>

definition isDigit :: "char \<Rightarrow> bool" where
  "isDigit c = (c \<in> set ''0123456789'')"

definition cleanPhoneChars :: "string \<Rightarrow> string" where
  "cleanPhoneChars phone = filter (\<lambda>c. isDigit c \<or> c = CHR ''+'') phone"

definition formatPhoneNumber :: "string \<Rightarrow> string" where
  "formatPhoneNumber phone =
     (let cleaned = cleanPhoneChars phone;
          cleaned = (if startsWith cleaned ''+'' then drop 1 cleaned else cleaned)
      in cleaned @ ''@c.us'')"

section \<open>The state of the server\<close>

text \<open>
  A scheduled message is a JavaScript object with the fields below. \<open>scheduledTime\<close>
  and \<open>createdAt\<close> hold ISO strings that \<open>toISOString\<close> produced from a valid date and
  that \<open>new Date\<close> reads back to the same time value, so the model keeps the time value.
  A field the object does not have yet (\<open>updatedAt\<close>, \<open>sentAt\<close>, \<open>error\<close>, \<open>parentId\<close>)
  is \<open>None\<close>. \<open>status\<close> only ever holds \<open>'pending'\<close>, \<open>'sent'\<close> or \<open>'failed'\<close>.
  The field \<open>id\<close> is named \<open>msg_id\<close>, since \<open>id\<close> is the identity function of HOL.
\<close>

datatype msg_status = Pending | Sent | Failed

record scheduled_message =
  msg_id :: string
  recipient :: string
  message :: string
  scheduledTime :: int
  repeat :: string
  status :: msg_status
  createdAt :: int
  updatedAt :: "int option"
  sentAt :: "int option"
  error :: "string option"
  parentId :: "string option"

text \<open>
  The array \<open>scheduledMessages\<close> holds references to message objects, and the delivery
  function mutates the object it is handed, which the array still refers to. The model
  therefore keeps an object store: \<open>objects\<close> maps a reference to the object it
  denotes, \<open>next_ref\<close> is the next unused reference, and an object literal allocates it.
\<close>

type_synonym ref = nat

record server =
  objects :: "ref \<Rightarrow> scheduled_message"
  next_ref :: ref
  scheduledMessages :: "ref list"
  currentQR :: "string option"
  isConnected :: bool
  connectedPhone :: "string option"

definition update_object :: "ref \<Rightarrow> (scheduled_message \<Rightarrow> scheduled_message) \<Rightarrow> server \<Rightarrow> server" where
  "update_object r f s = s\<lparr>objects := (objects s)(r := f (objects s r))\<rparr>"

text \<open>\<open>scheduledMessages.push({...})\<close>: allocate the object, append its reference.\<close>

definition push_new :: "scheduled_message \<Rightarrow> server \<Rightarrow> server" where
  "push_new m s =
     s\<lparr>objects := (objects s)(next_ref s := m),
       next_ref := Suc (next_ref s),
       scheduledMessages := scheduledMessages s @ [next_ref s]\<rparr>"

text \<open>
  \<open>scheduledMessages.findIndex(m => m.id === id)\<close>: the position of the first message with
  that id; \<open>None\<close> stands for the result -1.
\<close>

fun findIndex_from :: "(ref \<Rightarrow> bool) \<Rightarrow> ref list \<Rightarrow> nat \<Rightarrow> nat option" where
  "findIndex_from P [] i = None"
| "findIndex_from P (r # rs) i = (if P r then Some i else findIndex_from P rs (Suc i))"

definition findIndex :: "server \<Rightarrow> string \<Rightarrow> nat option" where
  "findIndex s ident = findIndex_from (\<lambda>r. msg_id (objects s r) = ident) (scheduledMessages s) 0"

section \<open>API routes\<close>

text \<open>
  The body of a request: a field is \<open>None\<close> when the body does not have it. The field
  \<open>scheduledTime\<close> is given with the date that \<open>new Date(scheduledTime)\<close> makes of it, and is
  \<open>None\<close> when the field is absent or falsy.
\<close>

record request_body =
  req_recipient :: "string option"
  req_message :: "string option"
  req_scheduledTime :: "jsdate option"
  req_repeat :: "string option"

text \<open>
  What a handler answers: a JSON body with \<open>success: true\<close> and a record or a text, a JSON
  body with \<open>success: false\<close> under an HTTP status, or an exception that leaves the handler
  (which Express answers with status 500).
\<close>

datatype response =
    Success_record scheduled_message
  | Success_text string
  | Failure nat string
  | Uncaught string

text \<open>\<open>Date.prototype.toISOString\<close> throws a RangeError on an invalid date.\<close>

definition toISOString :: "jsdate \<Rightarrow> string + int" where
  "toISOString d = (case d of Invalid \<Rightarrow> Inl ''Invalid time value'' | Instant t \<Rightarrow> Inr t)"

text \<open>
  \<open>scheduleDate <= new Date()\<close>: a comparison with an invalid date (NaN) is false.
\<close>

definition date_le :: "jsdate \<Rightarrow> int \<Rightarrow> bool" where
  "date_le d now = (case d of Invalid \<Rightarrow> False | Instant t \<Rightarrow> t \<le> now)"

text \<open>
  \<open>POST /api/schedule\<close>. \<open>uuid\<close> is the value \<open>uuidv4()\<close> returns, \<open>now\<close> the clock at the
  validation and \<open>now'\<close> the clock when \<open>createdAt\<close> is taken.
\<close>

definition post_schedule :: "string \<Rightarrow> int \<Rightarrow> int \<Rightarrow> request_body \<Rightarrow> server \<Rightarrow> response \<times> server" where
  "post_schedule uuid now now' body s =
     (if \<not> truthy (req_recipient body) \<or> \<not> truthy (req_message body)
          \<or> req_scheduledTime body = None
      then (Failure 400 ''Missing required fields: recipient, message, scheduledTime'', s)
      else
        let cleanPhone = cleanPhoneChars (the (req_recipient body)) in
        if length cleanPhone < 10
        then (Failure 400 ''Invalid phone number format'', s)
        else
          let scheduleDate = the (req_scheduledTime body) in
          if date_le scheduleDate now
          then (Failure 400 ''Scheduled time must be in the future'', s)
          else
            (case toISOString scheduleDate of
               Inl e \<Rightarrow> (Uncaught e, s)
             | Inr t \<Rightarrow>
                 let newMessage = \<lparr>
                       msg_id = uuid,
                       recipient = (if startsWith cleanPhone ''+'' then cleanPhone
                                    else ''+'' @ cleanPhone),
                       message = the (req_message body),
                       scheduledTime = t,
                       repeat = (if truthy (req_repeat body) then the (req_repeat body)
                                 else ''none''),
                       status = Pending,
                       createdAt = now',
                       updatedAt = None,
                       sentAt = None,
                       error = None,
                       parentId = None\<rparr>
                 in (Success_record newMessage, push_new newMessage s)))"

text \<open>
  \<open>PUT /api/messages/:id\<close>. The fields are assigned one after the other, so an invalid
  \<open>scheduledTime\<close> throws after \<open>recipient\<close> and \<open>message\<close> have been assigned.
\<close>

definition put_message :: "int \<Rightarrow> string \<Rightarrow> request_body \<Rightarrow> server \<Rightarrow> response \<times> server" where
  "put_message now ident body s =
     (case findIndex s ident of
        None \<Rightarrow> (Failure 404 ''Message not found'', s)
      | Some index \<Rightarrow>
          let r = scheduledMessages s ! index in
          if status (objects s r) \<noteq> Pending
          then (Failure 400 ''Can only edit pending messages'', s)
          else
            let s1 = (if truthy (req_recipient body)
                      then update_object r (\<lambda>m. m\<lparr>recipient := the (req_recipient body)\<rparr>) s
                      else s);
                s2 = (if truthy (req_message body)
                      then update_object r (\<lambda>m. m\<lparr>message := the (req_message body)\<rparr>) s1
                      else s1)
            in
              (case (case req_scheduledTime body of
                       None \<Rightarrow> Inr s2
                     | Some d \<Rightarrow>
                         (case toISOString d of
                            Inl e \<Rightarrow> Inl e
                          | Inr t \<Rightarrow> Inr (update_object r (\<lambda>m. m\<lparr>scheduledTime := t\<rparr>) s2)))
               of
                 Inl e \<Rightarrow> (Uncaught e, s2)
               | Inr s3 \<Rightarrow>
                   let s4 = (if truthy (req_repeat body)
                             then update_object r (\<lambda>m. m\<lparr>repeat := the (req_repeat body)\<rparr>) s3
                             else s3);
                       s5 = update_object r (\<lambda>m. m\<lparr>updatedAt := Some now\<rparr>) s4
                   in (Success_record (objects s5 r), s5)))"



section \<open>Delivery\<close>

text \<open>
  \<open>scheduleNextRepeat\<close>. \<open>uuid\<close> is the value \<open>uuidv4()\<close> returns and \<open>now\<close> the clock
  when \<open>createdAt\<close> is taken. A \<open>repeat\<close> value other than the three of the \<open>switch\<close>
  takes the \<open>default\<close> branch, which returns without creating anything.
\<close>

definition scheduleNextRepeat :: "timezone \<Rightarrow> string \<Rightarrow> int \<Rightarrow> ref \<Rightarrow> server \<Rightarrow> server" where
  "scheduleNextRepeat tz uuid now r s =
     (let msgData = objects s r;
          nextTime = scheduledTime msgData
      in case (if repeat msgData = ''daily''
               then Some (setDate tz nextTime (getDate tz nextTime + 1))
               else if repeat msgData = ''weekly''
               then Some (setDate tz nextTime (getDate tz nextTime + 7))
               else if repeat msgData = ''monthly''
               then Some (setMonth tz nextTime (getMonth tz nextTime + 1))
               else None)
         of None \<Rightarrow> s
          | Some nextTime \<Rightarrow>
              push_new \<lparr>
                msg_id = uuid,
                recipient = recipient msgData,
                message = message msgData,
                scheduledTime = nextTime,
                repeat = repeat msgData,
                status = Pending,
                createdAt = now,
                updatedAt = None,
                sentAt = None,
                error = None,
                parentId = Some (msg_id msgData)\<rparr> s)"

text \<open>
  What the outside world answers during one attempt of \<open>sendWhatsAppMessage\<close>: the
  outcome of \<open>client.getState()\<close> and of \<open>client.sendMessage\<close> (a rejection carries the
  \<open>message\<close> of the error thrown), the clock when \<open>sentAt\<close> is stamped, the uuid and the
  clock handed to \<open>scheduleNextRepeat\<close>, and the outcome of \<open>client.initialize()\<close> in the
  reconnect. Every value thrown is taken to be an \<open>Error\<close> with a string \<open>message\<close>.
  Nothing else runs between the steps of one call: the event handlers and the other
  timers that could interleave at an \<open>await\<close> are outside the model.
\<close>

datatype 'a outcome = Resolves 'a | Rejects string

record attempt_io =
  getState_result :: "string outcome"
  sendMessage_result :: "unit outcome"
  sentAt_clock :: int
  repeat_uuid :: string
  repeat_clock :: int
  initialize_result :: "unit outcome"

text \<open>
  The calls to the WhatsApp client and the waits, in the order in which they happen.
  \<open>Timeout d\<close> is \<open>await new Promise(resolve => setTimeout(resolve, d))\<close>.
\<close>

datatype event =
    GetState
  | SendMessage string string
  | Destroy
  | Initialize
  | Timeout nat

definition maxRetries :: nat where
  "maxRetries = 3"

text \<open>
  The body of the \<open>try\<close> block: \<open>Inl e\<close> when it throws an error with message \<open>e\<close>,
  \<open>Inr ()\<close> when it reaches \<open>return true\<close>.
\<close>

definition try_send :: "timezone \<Rightarrow> attempt_io \<Rightarrow> ref \<Rightarrow> server \<Rightarrow> (string + unit) \<times> server \<times> event list" where
  "try_send tz io r s =
     (case getState_result io of
        Rejects e \<Rightarrow> (Inl e, s, [GetState])
      | Resolves state \<Rightarrow>
          if state \<noteq> ''CONNECTED''
          then (Inl (''Client state is '' @ state @ '', not CONNECTED''), s, [GetState])
          else
            let chatId = formatPhoneNumber (recipient (objects s r));
                calls = [GetState, SendMessage chatId (message (objects s r))]
            in case sendMessage_result io of
                 Rejects e \<Rightarrow> (Inl e, s, calls)
               | Resolves u \<Rightarrow>
                   let s1 = update_object r (\<lambda>m. m\<lparr>status := Sent\<rparr>) s;
                       s2 = update_object r (\<lambda>m. m\<lparr>sentAt := Some (sentAt_clock io)\<rparr>) s1;
                       s3 = (if repeat (objects s2 r) \<noteq> [] \<and> repeat (objects s2 r) \<noteq> ''none''
                             then scheduleNextRepeat tz (repeat_uuid io) (repeat_clock io) r s2
                             else s2)
                   in (Inr (), s3, calls))"

text \<open>The \<open>catch\<close> block, after \<open>lastError = error\<close>.\<close>

definition on_error :: "string \<Rightarrow> nat \<Rightarrow> attempt_io \<Rightarrow> server \<Rightarrow> server \<times> event list" where
  "on_error e attempt io s =
     (if includes_str e ''Session closed'' \<or> includes_str e ''Protocol error''
      then (s\<lparr>isConnected := False\<rparr>,
            [Destroy, Timeout 5000, Initialize] @
            (case initialize_result io of Resolves u \<Rightarrow> [Timeout 10000] | Rejects e' \<Rightarrow> []))
      else (s, [Timeout (2000 * attempt)]))"

text \<open>
  The \<open>for\<close> loop from \<open>attempt\<close> on, followed by the code after the loop;
  \<open>lastError\<close> is \<open>None\<close> for \<open>null\<close>. \<open>lastError?.message || 'Unknown error'\<close> falls
  back to \<open>'Unknown error'\<close> when there is no error or when its message is empty.
\<close>

function attempts :: "timezone \<Rightarrow> (nat \<Rightarrow> attempt_io) \<Rightarrow> ref \<Rightarrow> nat \<Rightarrow> string option \<Rightarrow> server \<Rightarrow> bool \<times> server \<times> event list" where
  "attempts tz env r attempt lastError s =
     (if attempt \<le> maxRetries
      then
        (case try_send tz (env attempt) r s of
           (Inr u, s1, calls) \<Rightarrow> (True, s1, calls)
         | (Inl e, s1, calls) \<Rightarrow>
             (case on_error e attempt (env attempt) s1 of
                (s2, waits) \<Rightarrow>
                  (case attempts tz env r (Suc attempt) (Some e) s2 of
                     (res, s3, rest) \<Rightarrow> (res, s3, calls @ waits @ rest))))
      else
        (False,
         update_object r
           (\<lambda>m. m\<lparr>status := Failed,
                  error := Some (if truthy lastError then the lastError else ''Unknown error'')\<rparr>) s,
         []))"
  by pat_completeness auto
termination
  by (relation "measure (\<lambda>(tz, env, r, attempt, lastError, s). Suc maxRetries - attempt)") auto

definition sendWhatsAppMessage :: "timezone \<Rightarrow> (nat \<Rightarrow> attempt_io) \<Rightarrow> ref \<Rightarrow> server \<Rightarrow> bool \<times> server \<times> event list" where
  "sendWhatsAppMessage tz env r s =
     (if \<not> isConnected s
      then (False,
            update_object r (\<lambda>m. m\<lparr>status := Failed, error := Some ''WhatsApp not connected''\<rparr>) s,
            [])
      else attempts tz env r 1 None s)"

section \<open>Scheduler\<close>

text \<open>
  The daily cleanup: \<open>sevenDaysAgo\<close> is the clock with its day of the month set seven
  back; a message stays when it is pending or was created after that instant.
\<close>

definition cleanup :: "timezone \<Rightarrow> int \<Rightarrow> server \<Rightarrow> server" where
  "cleanup tz now s =
     (let sevenDaysAgo = setDate tz now (getDate tz now - 7)
      in s\<lparr>scheduledMessages :=
             filter (\<lambda>r. status (objects s r) = Pending \<or> createdAt (objects s r) > sevenDaysAgo)
                    (scheduledMessages s)\<rparr>)"

section \<open>Notions used to state the properties\<close>

text \<open>
  \<open>thrown io\<close>: the message of the error that the network calls of one attempt raise,
  \<open>None\<close> when the state query answers \<open>CONNECTED\<close> and the send goes through.
\<close>

definition thrown :: "attempt_io \<Rightarrow> string option" where
  "thrown io =
     (case getState_result io of
        Rejects e \<Rightarrow> Some e
      | Resolves state \<Rightarrow>
          if state \<noteq> ''CONNECTED''
          then Some (''Client state is '' @ state @ '', not CONNECTED'')
          else (case sendMessage_result io of Rejects e \<Rightarrow> Some e | Resolves u \<Rightarrow> None))"

text \<open>An error is generic when the \<open>catch\<close> block does not take it for a session error.\<close>

definition generic_error :: "string \<Rightarrow> bool" where
  "generic_error e = (\<not> includes_str e ''Session closed'' \<and> \<not> includes_str e ''Protocol error'')"

text \<open>The repeating kinds, those for which \<open>scheduleNextRepeat\<close> has a \<open>case\<close>.\<close>

definition repeating :: "string \<Rightarrow> bool" where
  "repeating rp = (rp = ''daily'' \<or> rp = ''weekly'' \<or> rp = ''monthly'')"

text \<open>The waits of a run, in order.\<close>

fun delays :: "event list \<Rightarrow> nat list" where
  "delays [] = []"
| "delays (Timeout d # es) = d # delays es"
| "delays (e # es) = delays es"

text \<open>
  The number of days by which \<open>scheduleNextRepeat\<close> moves the local time value of \<open>t\<close>:
  one, seven, or the length of the local calendar month \<open>t\<close> falls in.
\<close>

definition repeat_days :: "timezone \<Rightarrow> string \<Rightarrow> int \<Rightarrow> int" where
  "repeat_days tz rp t =
     (if rp = ''daily'' then 1
      else if rp = ''weekly'' then 7
      else DaysInMonth (getMonth tz t) (InLeapYear (LocalTime tz t)))"

text \<open>
  Calendar dates, to say what a month later means: \<open>calendar_date lt\<close> is the year, the
  month (0 to 11) and the day of the month of a local time value; \<open>LeapFlag y\<close> is 1 in a
  leap year; \<open>next_month_date\<close> is the same day of the following month, or, when that
  month is too short for it, the day that many days after its last one.
\<close>

definition calendar_date :: "int \<Rightarrow> int \<times> int \<times> int" where
  "calendar_date lt = (YearFromTime lt, MonthFromTime lt, DateFromTime lt)"

definition LeapFlag :: "int \<Rightarrow> int" where
  "LeapFlag y = (if DaysInYear y = 366 then 1 else 0)"

definition next_month_date :: "int \<times> int \<times> int \<Rightarrow> int \<times> int \<times> int" where
  "next_month_date ymd =
     (case ymd of
        (y, m, d) \<Rightarrow>
          let y' = y + (m + 1) div 12;
              m' = (m + 1) mod 12;
              len = DaysInMonth m' (LeapFlag y')
          in if d \<le> len then (y', m', d) else (y', m' + 1, d - len))"

text \<open>Two states of the server that hold the same messages.\<close>

definition same_store :: "server \<Rightarrow> server \<Rightarrow> bool" where
  "same_store s' s =
     (objects s' = objects s \<and> next_ref s' = next_ref s \<and> scheduledMessages s' = scheduledMessages s)"

text \<open>The state in which the \<open>try\<close> block leaves the server.\<close>

definition delivered :: "timezone \<Rightarrow> attempt_io \<Rightarrow> ref \<Rightarrow> server \<Rightarrow> server" where
  "delivered tz io r s = fst (snd (try_send tz io r s))"

text \<open>The record that \<open>scheduleNextRepeat\<close> builds from the message \<open>m\<close>.\<close>

definition continuation :: "timezone \<Rightarrow> string \<Rightarrow> int \<Rightarrow> scheduled_message \<Rightarrow> scheduled_message" where
  "continuation tz uuid now m = \<lparr>
     msg_id = uuid,
     recipient = recipient m,
     message = message m,
     scheduledTime = UTC tz (LocalTime tz (scheduledTime m)
                               + repeat_days tz (repeat m) (scheduledTime m) * msPerDay),
     repeat = repeat m,
     status = Pending,
     createdAt = now,
     updatedAt = None,
     sentAt = None,
     error = None,
     parentId = Some (msg_id m)\<rparr>"

section \<open>Sample data\<close>

definition sample_message :: scheduled_message where
  "sample_message = \<lparr>
     msg_id = ''m-1'',
     recipient = ''+15551230000'',
     message = ''hi'',
     scheduledTime = 1706659200000,
     repeat = ''daily'',
     status = Pending,
     createdAt = 1706655600000,
     updatedAt = None,
     sentAt = None,
     error = None,
     parentId = None\<rparr>"

definition sample_server :: server where
  "sample_server = \<lparr>
     objects = (\<lambda>r. sample_message),
     next_ref = 1,
     scheduledMessages = [0],
     currentQR = None,
     isConnected = True,
     connectedPhone = Some ''15550001111''\<rparr>"

text \<open>An environment in which every call succeeds, and some in which every attempt fails.\<close>

definition io_ok :: attempt_io where
  "io_ok = \<lparr>
     getState_result = Resolves ''CONNECTED'',
     sendMessage_result = Resolves (),
     sentAt_clock = 1706659260000,
     repeat_uuid = ''m-2'',
     repeat_clock = 1706659260001,
     initialize_result = Resolves ()\<rparr>"

definition env_ok :: "nat \<Rightarrow> attempt_io" where
  "env_ok attempt = io_ok"

definition env_failing :: "string \<Rightarrow> nat \<Rightarrow> attempt_io" where
  "env_failing e attempt = io_ok\<lparr>sendMessage_result := Rejects e\<rparr>"

text \<open>
  Two time zones: UTC, and one with a daylight saving change (that of New York in the
  spring of 2024: the offset is -5 h before 2024-03-10T07:00:00Z and -4 h from then on;
  the local times from 02:00 to 03:00 of that day are skipped).
\<close>

definition utc_zone :: timezone where
  "utc_zone = \<lparr>offsetAt = (\<lambda>t. 0), offsetOfLocal = (\<lambda>lt. 0)\<rparr>"

definition dst_zone :: timezone where
  "dst_zone = \<lparr>
     offsetAt = (\<lambda>t. if t < 1710054000000 then - 18000000 else - 14400000),
     offsetOfLocal = (\<lambda>lt. if lt < 1710039600000 then - 18000000 else - 14400000)\<rparr>"

text \<open>
  A store with four messages for the cleanup run at the instant \<open>1710388800000\<close>
  (2024-03-14T04:00:00Z, midnight in \<open>dst_zone\<close>): a sent one created 8 days before, a
  failed one created 6 days before, a pending one created 30 days before, and a failed
  one created 6 days 23 hours and 30 minutes before.
\<close>

definition retention_server :: server where
  "retention_server = \<lparr>
     objects = (\<lambda>r. if r = 0 then sample_message\<lparr>status := Sent, createdAt := 1709697600000\<rparr>
                    else if r = 1 then sample_message\<lparr>msg_id := ''m-2'', status := Failed,
                                                      createdAt := 1709870400000\<rparr>
                    else if r = 2 then sample_message\<lparr>msg_id := ''m-3'',
                                                      createdAt := 1707796800000\<rparr>
                    else sample_message\<lparr>msg_id := ''m-4'', status := Failed,
                                          createdAt := 1709785800000\<rparr>),
     next_ref = 4,
     scheduledMessages = [0, 1, 2, 3],
     currentQR = None,
     isConnected = True,
     connectedPhone = Some ''15550001111''\<rparr>"

text \<open>
  Three stores for \<open>scheduleNextRepeat\<close>, each holding the sample message with another
  schedule: daily at 2024-03-09T17:00:00Z (noon in \<open>dst_zone\<close>, the day before the clock
  change), monthly at 2024-01-31T00:00:00Z, and monthly at 2023-02-15T00:00:00Z.
\<close>

definition daily_server :: server where
  "daily_server = update_object 0 (\<lambda>m. m\<lparr>scheduledTime := 1710003600000\<rparr>) sample_server"

definition monthly_server :: server where
  "monthly_server = update_object 0 (\<lambda>m. m\<lparr>repeat := ''monthly''\<rparr>) sample_server"

definition february_server :: server where
  "february_server =
     update_object 0 (\<lambda>m. m\<lparr>repeat := ''monthly'', scheduledTime := 1676419200000\<rparr>) sample_server"

text \<open>A request body that only carries a \<open>scheduledTime\<close>.\<close>

definition time_only :: "jsdate \<Rightarrow> request_body" where
  "time_only d = \<lparr>
     req_recipient = None,
     req_message = None,
     req_scheduledTime = Some d,
     req_repeat = None\<rparr>"

text \<open>A complete request body for \<open>POST /api/schedule\<close>.\<close>

definition schedule_body :: "string \<Rightarrow> jsdate \<Rightarrow> request_body" where
  "schedule_body phone d = \<lparr>
     req_recipient = Some phone,
     req_message = Some ''hi'',
     req_scheduledTime = Some d,
     req_repeat = Some ''daily''\<rparr>"

section \<open>Calendar arithmetic\<close>

lemma div_succ_int:
  fixes a k :: int
  assumes "0 < k"
  shows "(a + 1) div k = a div k + (if (a + 1) mod k = 0 then 1 else 0)"
proof -
  define q where "q = a div k"
  define r where "r = a mod k"
  have a: "a = k * q + r" and r: "0 \<le> r" "r < k"
    using assms by (simp_all add: q_def r_def)
  show ?thesis
  proof (cases "r + 1 = k")
    case True
    then have "a + 1 = k * (q + 1)" using a by (simp add: algebra_simps)
    then have "(a + 1) div k = q + 1" "(a + 1) mod k = 0" using assms by simp_all
    then show ?thesis by (simp add: q_def)
  next
    case False
    then have "r + 1 < k" using r by simp
    have e: "a + 1 = k * q + (r + 1)" using a by simp
    have d: "(a + 1) div k = q"
      unfolding e using r \<open>r + 1 < k\<close> assms by (simp add: div_pos_pos_trivial)
    have m: "(a + 1) mod k = r + 1"
      unfolding e using r \<open>r + 1 < k\<close> assms by (simp add: mod_pos_pos_trivial)
    show ?thesis using d m r by (simp add: q_def)
  qed
qed

lemma mod_shift_int: "((y::int) - k * c) mod k = y mod k"
proof -
  have "y - k * c = y + k * (- c)" by simp
  then show ?thesis by (simp only: mod_mult_self2)
qed

lemma m4: "((y::int) - 1968) mod 4 = 0 \<longleftrightarrow> y mod 4 = 0"
  using mod_shift_int [of y 4 492] by simp
lemma m100: "((y::int) - 1900) mod 100 = 0 \<longleftrightarrow> y mod 100 = 0"
  using mod_shift_int [of y 100 19] by simp
lemma m400: "((y::int) - 1600) mod 400 = 0 \<longleftrightarrow> y mod 400 = 0"
  using mod_shift_int [of y 400 4] by simp
lemma m4_100: "(y::int) mod 100 = 0 \<Longrightarrow> y mod 4 = 0"
proof -
  assume "y mod 100 = 0"
  then have "100 dvd y" by (simp add: mod_eq_0_iff_dvd)
  moreover have "(4::int) dvd 100" by simp
  ultimately have "4 dvd y" by (rule dvd_trans [rotated])
  then show ?thesis by (simp add: mod_eq_0_iff_dvd)
qed
lemma m100_400: "(y::int) mod 400 = 0 \<Longrightarrow> y mod 100 = 0"
proof -
  assume "y mod 400 = 0"
  then have "400 dvd y" by (simp add: mod_eq_0_iff_dvd)
  moreover have "(100::int) dvd 400" by simp
  ultimately have "100 dvd y" by (rule dvd_trans [rotated])
  then show ?thesis by (simp add: mod_eq_0_iff_dvd)
qed

lemma DayFromYear_step: "DayFromYear (y + 1) = DayFromYear y + DaysInYear y"
proof -
  have a: "(y + 1 - 1969) div 4 = (y - 1969) div 4 + (if y mod 4 = 0 then 1 else 0)"
    using div_succ_int [of 4 "y - 1969"] m4 [of y] by (simp add: algebra_simps)
  have b: "(y + 1 - 1901) div 100 = (y - 1901) div 100 + (if y mod 100 = 0 then 1 else 0)"
    using div_succ_int [of 100 "y - 1901"] m100 [of y] by (simp add: algebra_simps)
  have c: "(y + 1 - 1601) div 400 = (y - 1601) div 400 + (if y mod 400 = 0 then 1 else 0)"
    using div_succ_int [of 400 "y - 1601"] m400 [of y] by (simp add: algebra_simps)
  show ?thesis
    unfolding DayFromYear_def DaysInYear_def a b c
    using m4_100 [of y] m100_400 [of y] by auto
qed


lemma MonthFromTime_range: "0 \<le> MonthFromTime t \<and> MonthFromTime t \<le> 11"
  by (simp add: MonthFromTime_def Let_def)

lemma MakeDay_same_month:
  "MakeDay (YearFromTime t) (MonthFromTime t) (DateFromTime t + n) = Day t + n"
proof -
  have d: "MonthFromTime t div 12 = 0" and m: "MonthFromTime t mod 12 = MonthFromTime t"
    using MonthFromTime_range [of t] by simp_all
  show ?thesis
    by (simp add: MakeDay_def Let_def d m DateFromTime_def DayWithinYear_def InLeapYear_def)
qed

lemma split_day: "Day t * msPerDay + TimeWithinDay t = t"
  by (simp add: Day_def TimeWithinDay_def)

lemma setDate_getDate:
  "setDate tz t (getDate tz t + n) = UTC tz (LocalTime tz t + n * msPerDay)"
proof -
  let ?lt = "LocalTime tz t"
  have "setDate tz t (getDate tz t + n)
      = UTC tz (MakeDate (Day ?lt + n) (TimeWithinDay ?lt))"
    by (simp add: setDate_def getDate_def Let_def MakeDay_same_month)
  also have "\<dots> = UTC tz (Day ?lt * msPerDay + TimeWithinDay ?lt + n * msPerDay)"
    by (simp add: MakeDate_def algebra_simps)
  also have "\<dots> = UTC tz (?lt + n * msPerDay)"
    by (simp only: split_day)
  finally show ?thesis .
qed

lemma firstDayOfMonth_next:
  assumes "0 \<le> m" "m < 11"
  shows "firstDayOfMonth (m + 1) leap = firstDayOfMonth m leap + DaysInMonth m leap"
proof -
  from assms have "m = 0 \<or> m = 1 \<or> m = 2 \<or> m = 3 \<or> m = 4 \<or> m = 5 \<or> m = 6
      \<or> m = 7 \<or> m = 8 \<or> m = 9 \<or> m = 10" by arith
  then show ?thesis
    by (elim disjE) (simp_all add: firstDayOfMonth_def DaysInMonth_def)
qed

lemma MakeDay_next_month:
  "MakeDay (YearFromTime t) (MonthFromTime t + 1) (DateFromTime t)
     = Day t + DaysInMonth (MonthFromTime t) (InLeapYear t)"
proof (cases "MonthFromTime t = 11")
  case True
  have "MakeDay (YearFromTime t) 12 (DateFromTime t)
      = DayFromYear (YearFromTime t + 1) + DateFromTime t - 1"
    by (simp add: MakeDay_def Let_def firstDayOfMonth_def)
  also have "\<dots> = DayFromYear (YearFromTime t) + DaysInYear (YearFromTime t)
      + (DayWithinYear t - (334 + InLeapYear t))"
    by (simp add: DayFromYear_step DateFromTime_def True firstDayOfMonth_def)
  also have "\<dots> = Day t + 31"
    by (simp add: DayWithinYear_def InLeapYear_def DaysInYear_def)
  finally show ?thesis by (simp add: True DaysInMonth_def)
next
  case False
  then have r: "0 \<le> MonthFromTime t" "MonthFromTime t < 11"
    using MonthFromTime_range [of t] by simp_all
  then have d: "(MonthFromTime t + 1) div 12 = 0"
    and m: "(MonthFromTime t + 1) mod 12 = MonthFromTime t + 1"
    by simp_all
  show ?thesis
    by (simp add: MakeDay_def Let_def d m firstDayOfMonth_next [OF r]
        DateFromTime_def DayWithinYear_def InLeapYear_def)
qed

lemma setMonth_getMonth:
  "setMonth tz t (getMonth tz t + 1)
     = UTC tz (LocalTime tz t
               + DaysInMonth (getMonth tz t) (InLeapYear (LocalTime tz t)) * msPerDay)"
proof -
  let ?lt = "LocalTime tz t"
  let ?n = "DaysInMonth (MonthFromTime ?lt) (InLeapYear ?lt)"
  have "setMonth tz t (getMonth tz t + 1)
      = UTC tz (MakeDate (Day ?lt + ?n) (TimeWithinDay ?lt))"
    by (simp add: setMonth_def getMonth_def Let_def MakeDay_next_month)
  also have "\<dots> = UTC tz (Day ?lt * msPerDay + TimeWithinDay ?lt + ?n * msPerDay)"
    by (simp add: MakeDate_def algebra_simps)
  also have "\<dots> = UTC tz (?lt + ?n * msPerDay)"
    by (simp only: split_day)
  finally show ?thesis by (simp add: getMonth_def)
qed

text \<open>The executable \<open>YearFromTime\<close> is the year that ECMA-262 specifies.\<close>

lemma div_unique_int:
  fixes m q r :: int
  assumes "0 \<le> r" and "r < m"
  shows "(m * q + r) div m = q" and "(m * q + r) mod m = r"
proof -
  have m: "0 < m" using assms by simp
  have "(m * q + r) div m = q + r div m" using m by simp
  then show "(m * q + r) div m = q" using assms by (simp add: div_pos_pos_trivial)
  have "(m * q + r) mod m = r mod m" by simp
  then show "(m * q + r) mod m = r" using assms by (simp add: mod_pos_pos_trivial)
qed

lemma DayFromYear_cycles:
  fixes a b c e :: int
  assumes "0 \<le> b" "b \<le> 3" "0 \<le> c" "c \<le> 24" "0 \<le> e" "e \<le> 3"
  shows "DayFromYear (1601 + 400 * a + 100 * b + 4 * c + e)
       = 146097 * a + 36524 * b + 1461 * c + 365 * e - 134774"
proof -
  let ?k = "400 * a + 100 * b + 4 * c + e"
  have d4: "(?k - 368) div 4 = 100 * a + 25 * b + c - 92"
  proof -
    have "?k - 368 = 4 * (100 * a + 25 * b + c - 92) + e" by simp
    then show ?thesis using div_unique_int(1) [of e 4 "100 * a + 25 * b + c - 92"] assms
      by simp
  qed
  have d100: "(?k - 300) div 100 = 4 * a + b - 3"
  proof -
    have "?k - 300 = 100 * (4 * a + b - 3) + (4 * c + e)" by simp
    moreover have "0 \<le> 4 * c + e" "4 * c + e < 100" using assms by simp_all
    ultimately show ?thesis using div_unique_int(1) [of "4 * c + e" 100 "4 * a + b - 3"]
      by simp
  qed
  have d400: "?k div 400 = a"
  proof -
    have "?k = 400 * a + (100 * b + 4 * c + e)" by simp
    moreover have "0 \<le> 100 * b + 4 * c + e" "100 * b + 4 * c + e < 400" using assms by simp_all
    ultimately show ?thesis using div_unique_int(1) [of "100 * b + 4 * c + e" 400 a]
      by simp
  qed
  have s: "1601 + 400 * a + 100 * b + 4 * c + e - 1970 = ?k - 369"
    "1601 + 400 * a + 100 * b + 4 * c + e - 1969 = ?k - 368"
    "1601 + 400 * a + 100 * b + 4 * c + e - 1901 = ?k - 300"
    "1601 + 400 * a + 100 * b + 4 * c + e - 1601 = ?k"
    by simp_all
  show ?thesis
    unfolding DayFromYear_def s d4 d100 d400 by simp
qed


lemma YearFromTime_parts:
  obtains a b c e r4 :: int where
    "YearFromTime t = 1601 + 400 * a + 100 * b + 4 * c + e"
    and "Day t + 134774 = 146097 * a + 36524 * b + 1461 * c + r4"
    and "0 \<le> b" and "b \<le> 3" and "0 \<le> c" and "c \<le> 24" and "0 \<le> e" and "e \<le> 3"
    and "365 * e \<le> r4"
    and "r4 - 365 * e \<le> 364 \<or> (e = 3 \<and> r4 = 1460 \<and> (c < 24 \<or> b = 3))"
proof -
  define n where "n = Day t + 134774"
  define a where "a = n div 146097"
  define r400 where "r400 = n mod 146097"
  define q where "q = r400 div 36524"
  define b where "b = min 3 q"
  define r100 where "r100 = r400 - b * 36524"
  define c where "c = r100 div 1461"
  define r4 where "r4 = r100 mod 1461"
  define p where "p = r4 div 365"
  define e where "e = min 3 p"
  have n: "n = 146097 * a + r400" by (simp add: a_def r400_def)
  have r400: "0 \<le> r400" "r400 < 146097" by (simp_all add: r400_def)
  have q_eq: "r400 = 36524 * q + r400 mod 36524" by (simp add: q_def)
  have qm: "0 \<le> r400 mod 36524" "r400 mod 36524 < 36524" by simp_all
  have q: "0 \<le> q" "q \<le> 4" using q_eq qm r400 by arith+
  have b: "0 \<le> b" "b \<le> 3" using q by (simp_all add: b_def)
  have r100: "0 \<le> r100" "r100 \<le> 36524" "r100 = 36524 \<longrightarrow> b = 3"
    using q_eq qm r400 q unfolding r100_def b_def by arith+
  have c_eq: "r100 = 1461 * c + r4" by (simp add: c_def r4_def)
  have r4: "0 \<le> r4" "r4 < 1461" by (simp_all add: r4_def)
  have c: "0 \<le> c" "c \<le> 24" using c_eq r4 r100 by arith+
  have p_eq: "r4 = 365 * p + r4 mod 365" by (simp add: p_def)
  have pm: "0 \<le> r4 mod 365" "r4 mod 365 < 365" by simp_all
  have p: "0 \<le> p" "p \<le> 4" using p_eq pm r4 by arith+
  have e: "0 \<le> e" "e \<le> 3" using p by (simp_all add: e_def)
  have low: "365 * e \<le> r4" using p_eq pm p unfolding e_def by arith
  have up: "r4 - 365 * e \<le> 364 \<or> (e = 3 \<and> r4 = 1460 \<and> (c < 24 \<or> b = 3))"
  proof (cases "p \<le> 3")
    case True
    then have "e = p" by (simp add: e_def)
    then show ?thesis using p_eq pm by arith
  next
    case False
    then have p4: "p = 4" using p by simp
    then have e3: "e = 3" by (simp add: e_def)
    have r4v: "r4 = 1460" using p4 p_eq pm r4 by arith
    have "c < 24 \<or> b = 3"
    proof (cases "c < 24")
      case True
      then show ?thesis by simp
    next
      case False
      then have "c = 24" using c by simp
      then have "r100 = 36524" using c_eq r4v by simp
      then show ?thesis using r100(3) by simp
    qed
    then show ?thesis using e3 r4v by simp
  qed
  have y: "YearFromTime t = 1601 + 400 * a + 100 * b + 4 * c + e"
    by (simp add: YearFromTime_def Let_def n_def a_def r400_def q_def b_def r100_def c_def
        r4_def p_def e_def)
  have d: "Day t + 134774 = 146097 * a + 36524 * b + 1461 * c + r4"
    using n c_eq by (simp add: n_def r100_def)
  show ?thesis using that [OF y d b c e low up] .
qed

lemma YearFromTime_lower: "DayFromYear (YearFromTime t) \<le> Day t"
proof -
  obtain a b c e r4 :: int where
    y: "YearFromTime t = 1601 + 400 * a + 100 * b + 4 * c + e"
    and d: "Day t + 134774 = 146097 * a + 36524 * b + 1461 * c + r4"
    and r: "0 \<le> b" "b \<le> 3" "0 \<le> c" "c \<le> 24" "0 \<le> e" "e \<le> 3"
    and low: "365 * e \<le> r4"
    by (rule YearFromTime_parts)
  show ?thesis
    unfolding y DayFromYear_cycles [OF r] using d low by simp
qed

lemma YearFromTime_upper: "Day t < DayFromYear (YearFromTime t + 1)"
proof -
  obtain a b c e r4 :: int where
    y: "YearFromTime t = 1601 + 400 * a + 100 * b + 4 * c + e"
    and d: "Day t + 134774 = 146097 * a + 36524 * b + 1461 * c + r4"
    and r: "0 \<le> b" "b \<le> 3" "0 \<le> c" "c \<le> 24" "0 \<le> e" "e \<le> 3"
    and up: "r4 - 365 * e \<le> 364 \<or> (e = 3 \<and> r4 = 1460 \<and> (c < 24 \<or> b = 3))"
    by (rule YearFromTime_parts)
  let ?Y = "YearFromTime t"
  have dy: "DayFromYear ?Y = 146097 * a + 36524 * b + 1461 * c + 365 * e - 134774"
    unfolding y by (rule DayFromYear_cycles [OF r])
  have ge: "365 \<le> DaysInYear ?Y" by (simp add: DaysInYear_def)
  have "r4 - 365 * e < DaysInYear ?Y"
  proof (cases "r4 - 365 * e \<le> 364")
    case True
    then show ?thesis using ge by simp
  next
    case False
    with up have e3: "e = 3" and r4v: "r4 = 1460" and cb: "c < 24 \<or> b = 3" by simp_all
    have y4: "?Y = 4 * (401 + 100 * a + 25 * b + c) + 0" using y e3 by simp
    have m4: "?Y mod 4 = 0"
      unfolding y4 by (rule div_unique_int(2)) simp_all
    have "DaysInYear ?Y = 366"
    proof (cases "c < 24")
      case True
      have "?Y = 100 * (16 + 4 * a + b) + (4 + 4 * c)" using y e3 by simp
      moreover have "0 \<le> 4 + 4 * c" "4 + 4 * c < 100" using r True by simp_all
      ultimately have "?Y mod 100 = 4 + 4 * c"
        using div_unique_int(2) [of "4 + 4 * c" 100 "16 + 4 * a + b"] by simp
      then have "?Y mod 100 \<noteq> 0" using r by simp
      then show ?thesis using m4 by (simp add: DaysInYear_def)
    next
      case False
      then have c24: "c = 24" and b3: "b = 3" using r cb by simp_all
      have "?Y = 400 * (5 + a) + 0" using y e3 c24 b3 by simp
      then have "?Y mod 400 = 0"
        using div_unique_int(2) [of 0 400 "5 + a"] by simp
      then show ?thesis using m4 by (simp add: DaysInYear_def)
    qed
    then show ?thesis using e3 r4v by simp
  qed
  then show ?thesis
    using d dy by (simp add: DayFromYear_step)
qed


lemma DayFromYear_mono: "x \<le> y \<Longrightarrow> DayFromYear x \<le> DayFromYear y"
proof (induction y rule: int_ge_induct)
  case base
  show ?case by simp
next
  case (step i)
  have "0 \<le> DaysInYear i" by (simp add: DaysInYear_def)
  with step.IH show ?case by (simp add: DayFromYear_step)
qed

lemma YearFromTime_largest:
  assumes "DayFromYear y \<le> Day t"
  shows "y \<le> YearFromTime t"
proof (rule ccontr)
  assume "\<not> y \<le> YearFromTime t"
  then have "YearFromTime t + 1 \<le> y" by simp
  then have "DayFromYear (YearFromTime t + 1) \<le> DayFromYear y" by (rule DayFromYear_mono)
  with assms YearFromTime_upper [of t] show False by simp
qed

text \<open>
  The calendar date of a time value: the date functions invert \<open>MakeDay\<close>, and a month
  later is the date \<open>next_month_date\<close> gives.
\<close>

lemma YearFromTime_unique:
  assumes "DayFromYear y \<le> Day t" and "Day t < DayFromYear (y + 1)"
  shows "YearFromTime t = y"
proof -
  have a: "y \<le> YearFromTime t" using assms(1) by (rule YearFromTime_largest)
  have "\<not> y + 1 \<le> YearFromTime t"
  proof
    assume "y + 1 \<le> YearFromTime t"
    then have "DayFromYear (y + 1) \<le> DayFromYear (YearFromTime t)" by (rule DayFromYear_mono)
    with YearFromTime_lower [of t] assms(2) show False by simp
  qed
  with a show ?thesis by simp
qed

lemma DaysInYear_LeapFlag: "DaysInYear y = 365 + LeapFlag y"
  by (simp add: DaysInYear_def LeapFlag_def)

lemma InLeapYear_LeapFlag: "InLeapYear t = LeapFlag (YearFromTime t)"
  by (simp add: InLeapYear_def LeapFlag_def)

lemma LeapFlag_range: "LeapFlag y = 0 \<or> LeapFlag y = 1"
  by (simp add: LeapFlag_def)

lemma DayWithinYear_range: "0 \<le> DayWithinYear t \<and> DayWithinYear t < 365 + InLeapYear t"
  using YearFromTime_lower [of t] YearFromTime_upper [of t]
  by (simp add: DayWithinYear_def DayFromYear_step DaysInYear_LeapFlag InLeapYear_LeapFlag)

lemma month_table:
  fixes w L :: int
  assumes "0 \<le> w" and "w < 365 + L"
  defines "m \<equiv> (if w < 31 then 0
         else if w < 59 + L then 1
         else if w < 90 + L then 2
         else if w < 120 + L then 3
         else if w < 151 + L then 4
         else if w < 181 + L then 5
         else if w < 212 + L then 6
         else if w < 243 + L then 7
         else if w < 273 + L then 8
         else if w < 304 + L then 9
         else if w < 334 + L then 10
         else 11)"
  shows "firstDayOfMonth m L \<le> w \<and> w < firstDayOfMonth m L + DaysInMonth m L"
  using assms(1,2) unfolding m_def firstDayOfMonth_def DaysInMonth_def
  by (simp split: if_splits)

lemma DateFromTime_range:
  "1 \<le> DateFromTime t \<and> DateFromTime t \<le> DaysInMonth (MonthFromTime t) (InLeapYear t)"
  using month_table [of "DayWithinYear t" "InLeapYear t"] DayWithinYear_range [of t]
  by (simp add: DateFromTime_def MonthFromTime_def Let_def)

lemma DaysInMonth_le_31: "L = 0 \<or> L = 1 \<Longrightarrow> DaysInMonth m L \<le> 31 \<and> 28 \<le> DaysInMonth m L"
  by (auto simp: DaysInMonth_def)

lemma twelve_months:
  fixes m :: int
  assumes "0 \<le> m" and "m \<le> 11"
  shows "m = 0 \<or> m = 1 \<or> m = 2 \<or> m = 3 \<or> m = 4 \<or> m = 5 \<or> m = 6
      \<or> m = 7 \<or> m = 8 \<or> m = 9 \<or> m = 10 \<or> m = 11"
  using assms by arith

lemma MakeDay_in_range:
  assumes "0 \<le> m" and "m \<le> 11"
  shows "MakeDay y m d = DayFromYear y + firstDayOfMonth m (LeapFlag y) + d - 1"
proof -
  have "m div 12 = 0" "m mod 12 = m" using assms by simp_all
  then show ?thesis by (simp add: MakeDay_def Let_def LeapFlag_def)
qed

lemma Day_MakeDate:
  assumes "0 \<le> tm" and "tm < msPerDay"
  shows "Day (MakeDate day tm) = day" and "TimeWithinDay (MakeDate day tm) = tm"
  using div_unique_int [OF assms, of day]
  by (simp_all add: Day_def TimeWithinDay_def MakeDate_def mult.commute)

lemma month_of_offset:
  fixes d L :: int
  assumes "0 \<le> m" and "m \<le> 11" and "1 \<le> d" and "d \<le> DaysInMonth m L"
    and "L = 0 \<or> L = 1"
  defines "w \<equiv> firstDayOfMonth m L + d - 1"
  shows "0 \<le> w" and "w < 365 + L"
    and "(if w < 31 then 0
         else if w < 59 + L then 1
         else if w < 90 + L then 2
         else if w < 120 + L then 3
         else if w < 151 + L then 4
         else if w < 181 + L then 5
         else if w < 212 + L then 6
         else if w < 243 + L then 7
         else if w < 273 + L then 8
         else if w < 304 + L then 9
         else if w < 334 + L then 10
         else 11) = m"
proof -
  note cases = twelve_months [OF assms(1,2)]
  show "0 \<le> w"
    using cases assms(3,5) unfolding w_def
    by (elim disjE) (simp_all add: firstDayOfMonth_def)
  show "w < 365 + L"
    using cases assms(3,4,5) unfolding w_def
    by (elim disjE) (simp_all add: firstDayOfMonth_def DaysInMonth_def)
  show "(if w < 31 then 0
         else if w < 59 + L then 1
         else if w < 90 + L then 2
         else if w < 120 + L then 3
         else if w < 151 + L then 4
         else if w < 181 + L then 5
         else if w < 212 + L then 6
         else if w < 243 + L then 7
         else if w < 273 + L then 8
         else if w < 304 + L then 9
         else if w < 334 + L then 10
         else 11) = m"
    using cases assms(3,4,5) unfolding w_def
    by (elim disjE) (simp_all add: firstDayOfMonth_def DaysInMonth_def)
qed

lemma MakeDay_fields:
  assumes "0 \<le> m" and "m \<le> 11" and "1 \<le> d" and "d \<le> DaysInMonth m (LeapFlag y)"
    and "0 \<le> tm" and "tm < msPerDay"
  shows "calendar_date (MakeDate (MakeDay y m d) tm) = (y, m, d)"
proof -
  let ?t = "MakeDate (MakeDay y m d) tm"
  let ?L = "LeapFlag y"
  let ?w = "firstDayOfMonth m ?L + d - 1"
  note w = month_of_offset [OF assms(1-4) LeapFlag_range]
  have day: "Day ?t = DayFromYear y + ?w"
    using Day_MakeDate(1) [OF assms(5,6)] MakeDay_in_range [OF assms(1,2)] by simp
  have yr: "YearFromTime ?t = y"
  proof (rule YearFromTime_unique)
    show "DayFromYear y \<le> Day ?t" using day w(1) by simp
    show "Day ?t < DayFromYear (y + 1)"
      using day w(2) by (simp add: DayFromYear_step DaysInYear_LeapFlag)
  qed
  have dwy: "DayWithinYear ?t = ?w" by (simp add: DayWithinYear_def yr day)
  have lp: "InLeapYear ?t = ?L" by (simp add: InLeapYear_LeapFlag yr)
  have mo: "MonthFromTime ?t = m"
    unfolding MonthFromTime_def Let_def dwy lp by (rule w(3))
  have dt: "DateFromTime ?t = d"
    by (simp add: DateFromTime_def dwy lp mo)
  show ?thesis by (simp add: calendar_date_def yr mo dt)
qed

lemma next_month_fields:
  fixes lt :: int
  defines "lt' \<equiv> lt + DaysInMonth (MonthFromTime lt) (InLeapYear lt) * msPerDay"
  shows "calendar_date lt' = next_month_date (calendar_date lt)"
    and "TimeWithinDay lt' = TimeWithinDay lt"
proof -
  let ?Y = "YearFromTime lt" and ?M = "MonthFromTime lt" and ?D = "DateFromTime lt"
  let ?tm = "TimeWithinDay lt"
  let ?Y' = "?Y + (?M + 1) div 12" and ?M' = "(?M + 1) mod 12"
  let ?len = "DaysInMonth ?M' (LeapFlag ?Y')"
  have tm: "0 \<le> ?tm" "?tm < msPerDay" by (simp_all add: TimeWithinDay_def msPerDay_def)
  show "TimeWithinDay lt' = TimeWithinDay lt"
    by (simp add: lt'_def TimeWithinDay_def)
  have "lt' = (Day lt + DaysInMonth ?M (InLeapYear lt)) * msPerDay + ?tm"
    using split_day [of lt] by (simp add: lt'_def algebra_simps)
  then have e: "lt' = MakeDate (MakeDay ?Y (?M + 1) ?D) ?tm"
    by (simp add: MakeDay_next_month MakeDate_def)
  have M': "0 \<le> ?M'" "?M' \<le> 11" by simp_all
  have md: "MakeDay ?Y (?M + 1) ?D = MakeDay ?Y' ?M' ?D"
    by (simp add: MakeDay_def Let_def)
  have D: "1 \<le> ?D" "?D \<le> 31"
    using DateFromTime_range [of lt] DaysInMonth_le_31 [OF LeapFlag_range, of "?M" "?Y"]
    by (simp_all add: InLeapYear_LeapFlag)
  show "calendar_date lt' = next_month_date (calendar_date lt)"
  proof (cases "?D \<le> ?len")
    case True
    from MakeDay_fields [OF M' D(1) True tm] show ?thesis
      using True by (simp add: e md next_month_date_def calendar_date_def Let_def)
  next
    case False
    then have short: "?len < 31" using D by simp
    then have M5: "?M' = 1 \<or> ?M' = 3 \<or> ?M' = 5 \<or> ?M' = 8 \<or> ?M' = 10"
      by (simp add: DaysInMonth_def split: if_splits)
    then have lt11: "?M' < 11" by auto
    have next_first: "firstDayOfMonth (?M' + 1) (LeapFlag ?Y')
        = firstDayOfMonth ?M' (LeapFlag ?Y') + ?len"
      using M'(1) lt11 by (rule firstDayOfMonth_next)
    have r1: "0 \<le> ?M' + 1" "?M' + 1 \<le> 11" using M'(1) lt11 by simp_all
    have shift: "MakeDay ?Y' ?M' ?D = MakeDay ?Y' (?M' + 1) (?D - ?len)"
      unfolding MakeDay_in_range [OF M'] MakeDay_in_range [OF r1] next_first by simp
    have len28: "28 \<le> ?len"
      using DaysInMonth_le_31 [OF LeapFlag_range, of "?M'" "?Y'"] by simp
    have d1: "1 \<le> ?D - ?len" using False by simp
    have "?D - ?len \<le> 3" using D(2) len28 by simp
    moreover have "28 \<le> DaysInMonth (?M' + 1) (LeapFlag ?Y')"
      using DaysInMonth_le_31 [OF LeapFlag_range, of "?M' + 1" "?Y'"] by simp
    ultimately have d2: "?D - ?len \<le> DaysInMonth (?M' + 1) (LeapFlag ?Y')" by simp
    from MakeDay_fields [OF r1 d1 d2 tm] show ?thesis
      using False by (simp add: e md shift next_month_date_def calendar_date_def Let_def)
  qed
qed

lemma add_days:
  "Day (lt + n * 86400000) = Day lt + n" "TimeWithinDay (lt + n * 86400000) = TimeWithinDay lt"
  by (simp_all add: Day_def TimeWithinDay_def msPerDay_def)

lemma same_offset_exact:
  "offsetOfLocal tz (LocalTime tz t + k) = offsetAt tz t \<Longrightarrow> UTC tz (LocalTime tz t + k) = t + k"
  by (simp add: UTC_def LocalTime_def)

lemma sample_dates:
  "calendar_date 1706659200000 = (2024, 0, 31)"
  "InLeapYear 1706659200000 = 1"
  "calendar_date 1709337600000 = (2024, 2, 2)"
  "calendar_date 1676419200000 = (2023, 1, 15)"
  "InLeapYear 1676419200000 = 0"
  "calendar_date 1678838400000 = (2023, 2, 15)"
  by code_simp+

section \<open>The delivery loop\<close>

declare attempts.simps [simp del]

lemma try_send_thrown:
  "thrown io = Some e \<Longrightarrow> \<exists>calls. try_send tz io r s = (Inl e, s, calls)"
  by (auto simp: thrown_def try_send_def Let_def split: outcome.splits if_splits)

lemma try_send_ok:
  "thrown io = None \<Longrightarrow> \<exists>s' calls. try_send tz io r s = (Inr (), s', calls)"
  by (auto simp: thrown_def try_send_def Let_def split: outcome.splits if_splits)

lemma attempts_exhausted:
  "maxRetries < attempt \<Longrightarrow>
   attempts tz env r attempt lastError s =
     (False,
      update_object r
        (\<lambda>m. m\<lparr>status := Failed,
               error := Some (if truthy lastError then the lastError else ''Unknown error'')\<rparr>) s,
      [])"
  by (simp add: attempts.simps)

lemma attempts_failed_step:
  assumes "attempt \<le> maxRetries" and "thrown (env attempt) = Some e"
  shows "attempts tz env r attempt lastError s =
     (fst (attempts tz env r (Suc attempt) (Some e) (fst (on_error e attempt (env attempt) s))),
      fst (snd (attempts tz env r (Suc attempt) (Some e) (fst (on_error e attempt (env attempt) s)))),
      snd (snd (try_send tz (env attempt) r s)) @ snd (on_error e attempt (env attempt) s) @
      snd (snd (attempts tz env r (Suc attempt) (Some e) (fst (on_error e attempt (env attempt) s)))))"
proof -
  obtain calls where c: "try_send tz (env attempt) r s = (Inl e, s, calls)"
    using try_send_thrown [OF assms(2)] by blast
  show ?thesis
    by (subst attempts.simps) (simp add: assms(1) c case_prod_beta)
qed

lemma attempts_success_step:
  assumes "attempt \<le> maxRetries" and "thrown (env attempt) = None"
  shows "attempts tz env r attempt lastError s =
     (True, fst (snd (try_send tz (env attempt) r s)), snd (snd (try_send tz (env attempt) r s)))"
proof -
  obtain s1 calls where c: "try_send tz (env attempt) r s = (Inr (), s1, calls)"
    using try_send_ok [OF assms(2)] by blast
  show ?thesis
    by (subst attempts.simps) (simp add: assms(1) c)
qed


lemma on_error_generic:
  "generic_error e \<Longrightarrow> on_error e attempt io s = (s, [Timeout (2000 * attempt)])"
  by (simp add: on_error_def generic_error_def)

lemma on_error_same_store: "same_store (fst (on_error e attempt io s)) s"
  by (simp add: on_error_def same_store_def)

lemma same_store_refl: "same_store s s"
  by (simp add: same_store_def)

lemma same_store_trans: "same_store a b \<Longrightarrow> same_store b c \<Longrightarrow> same_store a c"
  by (simp add: same_store_def)

lemma scheduleNextRepeat_repeating:
  assumes "repeating (repeat (objects s r))"
  shows "scheduleNextRepeat tz uuid now r s = push_new (continuation tz uuid now (objects s r)) s"
proof -
  have "repeat (objects s r) = ''daily'' \<or> repeat (objects s r) = ''weekly''
      \<or> repeat (objects s r) = ''monthly''"
    using assms by (simp add: repeating_def)
  then show ?thesis
    by (elim disjE)
       (simp_all add: scheduleNextRepeat_def Let_def continuation_def repeat_days_def
          setDate_getDate setMonth_getMonth)
qed

lemma scheduleNextRepeat_other:
  "\<not> repeating (repeat (objects s r)) \<Longrightarrow> scheduleNextRepeat tz uuid now r s = s"
  by (simp add: scheduleNextRepeat_def Let_def repeating_def)

lemma repeating_truthy: "repeating rp \<Longrightarrow> rp \<noteq> [] \<and> rp \<noteq> ''none''"
  by (auto simp: repeating_def)

lemma delivered_repeating:
  assumes "thrown io = None" and "repeating (repeat (objects s r))"
  shows "delivered tz io r s =
     push_new (continuation tz (repeat_uuid io) (repeat_clock io) (objects s r))
       (update_object r (\<lambda>m. m\<lparr>status := Sent, sentAt := Some (sentAt_clock io)\<rparr>) s)"
proof -
  let ?s2 = "update_object r (\<lambda>m. m\<lparr>sentAt := Some (sentAt_clock io)\<rparr>)
               (update_object r (\<lambda>m. m\<lparr>status := Sent\<rparr>) s)"
  have s2: "?s2 = update_object r (\<lambda>m. m\<lparr>status := Sent, sentAt := Some (sentAt_clock io)\<rparr>) s"
    by (simp add: update_object_def)
  have rp: "repeat (objects ?s2 r) = repeat (objects s r)"
    by (simp add: update_object_def)
  have d: "delivered tz io r s = scheduleNextRepeat tz (repeat_uuid io) (repeat_clock io) r ?s2"
    using assms(1) repeating_truthy [OF assms(2)]
    by (auto simp: delivered_def try_send_def thrown_def Let_def rp
          split: outcome.splits if_splits)
  have "scheduleNextRepeat tz (repeat_uuid io) (repeat_clock io) r ?s2
      = push_new (continuation tz (repeat_uuid io) (repeat_clock io) (objects ?s2 r)) ?s2"
    using assms(2) rp by (intro scheduleNextRepeat_repeating) simp
  also have "continuation tz (repeat_uuid io) (repeat_clock io) (objects ?s2 r)
      = continuation tz (repeat_uuid io) (repeat_clock io) (objects s r)"
    by (simp add: continuation_def update_object_def)
  finally show ?thesis using d s2 by simp
qed

lemma delivered_other:
  assumes "thrown io = None" and "\<not> repeating (repeat (objects s r))"
  shows "delivered tz io r s =
     update_object r (\<lambda>m. m\<lparr>status := Sent, sentAt := Some (sentAt_clock io)\<rparr>) s"
proof -
  let ?s2 = "update_object r (\<lambda>m. m\<lparr>sentAt := Some (sentAt_clock io)\<rparr>)
               (update_object r (\<lambda>m. m\<lparr>status := Sent\<rparr>) s)"
  have s2: "?s2 = update_object r (\<lambda>m. m\<lparr>status := Sent, sentAt := Some (sentAt_clock io)\<rparr>) s"
    by (simp add: update_object_def)
  have rp: "repeat (objects ?s2 r) = repeat (objects s r)"
    by (simp add: update_object_def)
  have n: "scheduleNextRepeat tz (repeat_uuid io) (repeat_clock io) r ?s2 = ?s2"
    using assms(2) rp by (intro scheduleNextRepeat_other) simp
  have "delivered tz io r s = ?s2"
    using assms(1) n
    by (auto simp: delivered_def try_send_def thrown_def Let_def
          split: outcome.splits if_splits)
  then show ?thesis using s2 by simp
qed

lemma attempts_cases:
  assumes "attempts tz env r attempt lastError s = (b, s', tr)"
  shows "(b \<and> (\<exists>k x. attempt \<le> k \<and> k \<le> maxRetries \<and> thrown (env k) = None
              \<and> same_store x s \<and> s' = delivered tz (env k) r x))
       \<or> (\<not> b \<and> (\<exists>e x. same_store x s
              \<and> s' = update_object r (\<lambda>m. m\<lparr>status := Failed, error := Some e\<rparr>) x))"
  using assms
proof (induction "Suc maxRetries - attempt" arbitrary: attempt lastError s b s' tr)
  case 0
  then have "maxRetries < attempt" by simp
  from attempts_exhausted [OF this, of tz env r lastError s] "0.prems"
  have "\<not> b" and "s' = update_object r
      (\<lambda>m. m\<lparr>status := Failed,
             error := Some (if truthy lastError then the lastError else ''Unknown error'')\<rparr>) s"
    by simp_all
  then show ?case using same_store_refl by blast
next
  case (Suc n)
  then have le: "attempt \<le> maxRetries" by simp
  show ?case
  proof (cases "thrown (env attempt)")
    case None
    have "(b, s', tr) = (True, delivered tz (env attempt) r s,
        snd (snd (try_send tz (env attempt) r s)))"
      unfolding delivered_def
      using attempts_success_step [where env = env and attempt = attempt and tz = tz and r = r
        and lastError = lastError and s = s, OF le None] Suc.prems
      by (simp only:)
    then have "b" and "s' = delivered tz (env attempt) r s"
      by simp_all
    then show ?thesis using le None same_store_refl by blast
  next
    case (Some e)
    let ?s1 = "fst (on_error e attempt (env attempt) s)"
    obtain b1 s1' tr1 where r1: "attempts tz env r (Suc attempt) (Some e) ?s1 = (b1, s1', tr1)"
      by (cases "attempts tz env r (Suc attempt) (Some e) ?s1") auto
    have "(b, s', tr) = (b1, s1', snd (snd (try_send tz (env attempt) r s))
        @ snd (on_error e attempt (env attempt) s) @ tr1)"
      using attempts_failed_step [where env = env and attempt = attempt and tz = tz and r = r
        and lastError = lastError and s = s, OF le Some] Suc.prems
      by (simp only: r1 fst_conv snd_conv)
    then have eq: "b = b1" "s' = s1'" by simp_all
    have n: "n = Suc maxRetries - Suc attempt" using Suc.hyps(2) by simp
    from Suc.hyps(1) [OF n r1]
    have "(b1 \<and> (\<exists>k x. Suc attempt \<le> k \<and> k \<le> maxRetries \<and> thrown (env k) = None
              \<and> same_store x ?s1 \<and> s1' = delivered tz (env k) r x))
       \<or> (\<not> b1 \<and> (\<exists>e x. same_store x ?s1
              \<and> s1' = update_object r (\<lambda>m. m\<lparr>status := Failed, error := Some e\<rparr>) x))" .
    then show ?thesis
    proof
      assume a: "b1 \<and> (\<exists>k x. Suc attempt \<le> k \<and> k \<le> maxRetries \<and> thrown (env k) = None
              \<and> same_store x ?s1 \<and> s1' = delivered tz (env k) r x)"
      then obtain k x where k: "Suc attempt \<le> k" "k \<le> maxRetries" "thrown (env k) = None"
          "same_store x ?s1" "s1' = delivered tz (env k) r x" by blast
      have "same_store x s" using k(4) on_error_same_store by (rule same_store_trans)
      moreover have "attempt \<le> k" using k(1) by simp
      ultimately show ?thesis using a k eq by blast
    next
      assume a: "\<not> b1 \<and> (\<exists>e x. same_store x ?s1
              \<and> s1' = update_object r (\<lambda>m. m\<lparr>status := Failed, error := Some e\<rparr>) x)"
      then obtain e' x where x: "same_store x ?s1"
          "s1' = update_object r (\<lambda>m. m\<lparr>status := Failed, error := Some e'\<rparr>) x" by blast
      have "same_store x s" using x(1) on_error_same_store by (rule same_store_trans)
      then show ?thesis using a x eq by blast
    qed
  qed
qed

lemma maxRetries_bounds: "1 \<le> maxRetries" "2 \<le> maxRetries" "3 \<le> maxRetries" "maxRetries < 4"
  by (simp_all add: maxRetries_def)

lemma attempts_all_fail:
  fixes s :: server and env :: "nat \<Rightarrow> attempt_io"
  assumes "thrown (env 1) = Some e1" and "thrown (env 2) = Some e2" and "thrown (env 3) = Some e3"
  defines "s1 \<equiv> fst (on_error e1 1 (env 1) s)"
  defines "s2 \<equiv> fst (on_error e2 2 (env 2) s1)"
  defines "s3 \<equiv> fst (on_error e3 3 (env 3) s2)"
  shows "attempts tz env r 1 lastError s =
     (False,
      update_object r
        (\<lambda>m. m\<lparr>status := Failed, error := Some (if e3 \<noteq> [] then e3 else ''Unknown error'')\<rparr>) s3,
      snd (snd (try_send tz (env 1) r s)) @ snd (on_error e1 1 (env 1) s) @
      snd (snd (try_send tz (env 2) r s1)) @ snd (on_error e2 2 (env 2) s1) @
      snd (snd (try_send tz (env 3) r s2)) @ snd (on_error e3 3 (env 3) s2))"
proof -
  have n: "Suc 1 = 2" "Suc 2 = 3" "Suc 3 = 4" by simp_all
  have a4: "attempts tz env r 4 (Some e3) s3 =
      (False,
       update_object r
         (\<lambda>m. m\<lparr>status := Failed, error := Some (if e3 \<noteq> [] then e3 else ''Unknown error'')\<rparr>) s3,
       [])"
    using attempts_exhausted [OF maxRetries_bounds(4), of tz env r "Some e3" s3] by simp
  have a3: "attempts tz env r 3 (Some e2) s2 =
      (False,
       update_object r
         (\<lambda>m. m\<lparr>status := Failed, error := Some (if e3 \<noteq> [] then e3 else ''Unknown error'')\<rparr>) s3,
       snd (snd (try_send tz (env 3) r s2)) @ snd (on_error e3 3 (env 3) s2))"
    using attempts_failed_step [where env = env and attempt = 3 and tz = tz and r = r
        and lastError = "Some e2" and s = s2, OF maxRetries_bounds(3) assms(3)]
    by (simp only: n s3_def [symmetric] a4 fst_conv snd_conv append_Nil2)
  have a2: "attempts tz env r 2 (Some e1) s1 =
      (False,
       update_object r
         (\<lambda>m. m\<lparr>status := Failed, error := Some (if e3 \<noteq> [] then e3 else ''Unknown error'')\<rparr>) s3,
       snd (snd (try_send tz (env 2) r s1)) @ snd (on_error e2 2 (env 2) s1) @
       snd (snd (try_send tz (env 3) r s2)) @ snd (on_error e3 3 (env 3) s2))"
    using attempts_failed_step [where env = env and attempt = 2 and tz = tz and r = r
        and lastError = "Some e1" and s = s1, OF maxRetries_bounds(2) assms(2)]
    by (simp only: n s2_def [symmetric] a3 fst_conv snd_conv)
  show ?thesis
    using attempts_failed_step [where env = env and attempt = 1 and tz = tz and r = r
        and lastError = lastError and s = s, OF maxRetries_bounds(1) assms(1)]
    by (simp only: n s1_def [symmetric] a2 fst_conv snd_conv)
qed

lemma delays_append: "delays (xs @ ys) = delays xs @ delays ys"
  by (induction xs rule: delays.induct) simp_all

lemma delays_try_send: "delays (snd (snd (try_send tz io r s))) = []"
  by (simp add: try_send_def Let_def split: outcome.splits)

lemma all_generic_fail:
  assumes "thrown (env 1) = Some e1" and "thrown (env 2) = Some e2" and "thrown (env 3) = Some e3"
    and "generic_error e1" and "generic_error e2" and "generic_error e3"
  shows "attempts tz env r 1 lastError s =
     (False,
      update_object r
        (\<lambda>m. m\<lparr>status := Failed, error := Some (if e3 \<noteq> [] then e3 else ''Unknown error'')\<rparr>) s,
      snd (snd (try_send tz (env 1) r s)) @ [Timeout 2000] @
      snd (snd (try_send tz (env 2) r s)) @ [Timeout 4000] @
      snd (snd (try_send tz (env 3) r s)) @ [Timeout 6000])"
  using attempts_all_fail [OF assms(1-3), of tz r lastError s]
  by (simp add: on_error_generic assms(4-6))

lemma attempts_false_all_thrown:
  assumes "attempts tz env r attempt lastError s = (False, s', tr)"
    and "attempt \<le> k" and "k \<le> maxRetries"
  shows "thrown (env k) \<noteq> None"
  using assms
proof (induction "Suc maxRetries - attempt" arbitrary: attempt lastError s s' tr)
  case 0
  then show ?case by simp
next
  case (Suc n)
  then have le: "attempt \<le> maxRetries" by simp
  show ?case
  proof (cases "thrown (env attempt)")
    case None
    from attempts_success_step [where env = env and attempt = attempt and tz = tz and r = r
        and lastError = lastError and s = s, OF le None] Suc.prems(1)
    show ?thesis by simp
  next
    case (Some e)
    let ?s1 = "fst (on_error e attempt (env attempt) s)"
    obtain b1 s1' tr1 where r1: "attempts tz env r (Suc attempt) (Some e) ?s1 = (b1, s1', tr1)"
      by (cases "attempts tz env r (Suc attempt) (Some e) ?s1") auto
    have "(False, s', tr) = (b1, s1', snd (snd (try_send tz (env attempt) r s))
        @ snd (on_error e attempt (env attempt) s) @ tr1)"
      using attempts_failed_step [where env = env and attempt = attempt and tz = tz and r = r
        and lastError = lastError and s = s, OF le Some] Suc.prems(1)
      by (simp only: r1 fst_conv snd_conv)
    then have b1: "b1 = False" by simp
    show ?thesis
    proof (cases "k = attempt")
      case True
      then show ?thesis using Some by simp
    next
      case False
      then have k: "Suc attempt \<le> k" using Suc.prems(2) by simp
      have n: "n = Suc maxRetries - Suc attempt" using Suc.hyps(2) by simp
      from Suc.hyps(1) [OF n r1 [unfolded b1] k Suc.prems(3)] show ?thesis .
    qed
  qed
qed

lemma delivered_record:
  assumes "thrown io = None" and "r < next_ref x"
  shows "objects (delivered tz io r x) r
       = (objects x r)\<lparr>status := Sent, sentAt := Some (sentAt_clock io)\<rparr>"
proof (cases "repeating (repeat (objects x r))")
  case True
  show ?thesis
    using assms(2) by (simp add: delivered_repeating [OF assms(1) True] push_new_def update_object_def)
next
  case False
  show ?thesis
    by (simp add: delivered_other [OF assms(1) False] update_object_def)
qed

lemma delivered_store_repeating:
  assumes "thrown io = None" and "repeating (repeat (objects x r))"
  shows "scheduledMessages (delivered tz io r x) = scheduledMessages x @ [next_ref x]"
    and "next_ref (delivered tz io r x) = Suc (next_ref x)"
    and "objects (delivered tz io r x) (next_ref x)
       = continuation tz (repeat_uuid io) (repeat_clock io) (objects x r)"
  by (simp_all add: delivered_repeating [OF assms] push_new_def update_object_def)

lemma delivered_store_other:
  assumes "thrown io = None" and "\<not> repeating (repeat (objects x r))"
  shows "scheduledMessages (delivered tz io r x) = scheduledMessages x"
    and "next_ref (delivered tz io r x) = next_ref x"
  by (simp_all add: delivered_other [OF assms] update_object_def)

lemma failed_store:
  "objects (update_object r (\<lambda>m. m\<lparr>status := Failed, error := Some e\<rparr>) x) r
     = (objects x r)\<lparr>status := Failed, error := Some e\<rparr>"
  "scheduledMessages (update_object r f x) = scheduledMessages x"
  "next_ref (update_object r f x) = next_ref x"
  by (simp_all add: update_object_def)

lemma sample_thrown:
  "thrown (env_failing e k) = Some e" "thrown (env_ok k) = None"
  by (simp_all add: thrown_def env_failing_def env_ok_def io_ok_def)

lemma generic_boom: "generic_error ''boom''"
  by (simp add: generic_error_def startsWith_def)

lemma on_error_objects: "objects (fst (on_error e attempt io s)) = objects s"
  by (simp add: on_error_def)

lemma send_all_fail:
  assumes "isConnected s"
    and "thrown (env 1) = Some e1" and "thrown (env 2) = Some e2" and "thrown (env 3) = Some e3"
  shows "\<not> fst (sendWhatsAppMessage tz env r s)"
    and "objects (fst (snd (sendWhatsAppMessage tz env r s))) r
       = (objects s r)\<lparr>status := Failed,
                          error := Some (if e3 \<noteq> [] then e3 else ''Unknown error'')\<rparr>"
  using assms(1) attempts_all_fail [OF assms(2-4), of tz r None s]
  by (simp_all add: sendWhatsAppMessage_def update_object_def on_error_objects)

lemma send_first_attempt_ok:
  assumes "isConnected s" and "thrown (env 1) = None"
  shows "fst (sendWhatsAppMessage tz env r s)"
  using assms(1)
    attempts_success_step [where env = env and attempt = 1 and tz = tz and r = r
      and lastError = None and s = s, OF maxRetries_bounds(1) assms(2)]
  by (simp add: sendWhatsAppMessage_def)

lemma sample_facts:
  "isConnected sample_server" "0 < next_ref sample_server" "next_ref sample_server = 1"
  "scheduledMessages sample_server = [0]" "objects sample_server 0 = sample_message"
  by (simp_all add: sample_server_def)

lemma push_new_facts:
  "scheduledMessages (push_new m s) = scheduledMessages s @ [next_ref s]"
  "next_ref (push_new m s) = Suc (next_ref s)"
  "objects (push_new m s) (next_ref s) = m"
  "r < next_ref s \<Longrightarrow> objects (push_new m s) r = objects s r"
  "isConnected (push_new m s) = isConnected s"
  by (simp_all add: push_new_def)



lemma post_schedule_rejects_non_future:
  assumes "req_scheduledTime body = Some (Instant t)" and "t \<le> now"
  shows "\<exists>e. post_schedule uuid now now' body s = (Failure 400 e, s)"
  using assms by (simp add: post_schedule_def Let_def date_le_def)

lemma post_schedule_created_in_future:
  assumes "post_schedule uuid now now' body s = (Success_record m, s')"
  shows "now < scheduledTime m \<and> status m = Pending"
  using assms
  by (auto simp: post_schedule_def Let_def date_le_def toISOString_def
      split: if_splits jsdate.splits sum.splits)

lemma put_message_sets_any_time:
  assumes "findIndex s ident = Some index"
    and "status (objects s (scheduledMessages s ! index)) = Pending"
  shows "fst (put_message now ident (time_only (Instant t)) s)
       = Success_record ((objects s (scheduledMessages s ! index))
           \<lparr>scheduledTime := t, updatedAt := Some now\<rparr>)"
    and "scheduledTime (objects (snd (put_message now ident (time_only (Instant t)) s))
           (scheduledMessages s ! index)) = t"
  using assms
  by (simp_all add: put_message_def Let_def time_only_def toISOString_def update_object_def)

lemma sample_find: "findIndex sample_server ''m-1'' = Some 0"
  by (simp add: findIndex_def sample_server_def sample_message_def)

lemma formatPhoneNumber_digits:
  assumes "CHR ''+'' \<notin> set (drop 1 (cleanPhoneChars phone))"
  shows "\<exists>ds. formatPhoneNumber phone = ds @ ''@c.us'' \<and> (\<forall>c \<in> set ds. isDigit c)"
proof -
  let ?c = "cleanPhoneChars phone"
  have all: "\<forall>c \<in> set ?c. isDigit c \<or> c = CHR ''+''"
    by (simp add: cleanPhoneChars_def)
  have tl: "\<forall>c \<in> set (drop 1 ?c). isDigit c"
  proof
    fix c assume c: "c \<in> set (drop 1 ?c)"
    then have "c \<in> set ?c" by (rule in_set_dropD)
    with all have "isDigit c \<or> c = CHR ''+''" by blast
    with c assms show "isDigit c" by blast
  qed
  show ?thesis
  proof (cases "startsWith ?c ''+''")
    case True
    then have "formatPhoneNumber phone = drop 1 ?c @ ''@c.us''"
      by (simp add: formatPhoneNumber_def Let_def)
    with tl show ?thesis by blast
  next
    case False
    then have f: "formatPhoneNumber phone = ?c @ ''@c.us''"
      by (simp add: formatPhoneNumber_def Let_def)
    have "\<forall>c \<in> set ?c. isDigit c"
    proof (cases ?c)
      case Nil
      then show ?thesis by simp
    next
      case (Cons a as)
      with False have "a \<noteq> CHR ''+''" by (simp add: startsWith_def)
      moreover from all Cons have "isDigit a \<or> a = CHR ''+''" by simp
      ultimately have "isDigit a" by blast
      moreover from tl Cons have "\<forall>c \<in> set as. isDigit c" by simp
      ultimately show ?thesis using Cons by simp
    qed
    with f show ?thesis by blast
  qed
qed

lemma post_schedule_rejects_sample:
  "fst (post_schedule ''m-9'' 1706659200000 1706659200000
         (schedule_body ''+15551230000'' (Instant 1000)) sample_server)
     = Failure 400 ''Scheduled time must be in the future''"
  "fst (post_schedule ''m-9'' 1706659200000 1706659200000
         (schedule_body ''+15551230000'' (Instant 1706659200000)) sample_server)
     = Failure 400 ''Scheduled time must be in the future''"
  by (simp_all add: post_schedule_def schedule_body_def cleanPhoneChars_def isDigit_def
      date_le_def)

lemma post_schedule_stores_inner_plus:
  "recipient (objects (snd (post_schedule ''m-9'' 1706659200000 1706659200000
         (schedule_body ''+1+2345678901'' (Instant 1706745600000)) sample_server)) 1)
     = ''+1+2345678901''"
  by (simp add: cleanPhoneChars_def isDigit_def startsWith_def
      post_schedule_def schedule_body_def date_le_def toISOString_def push_new_def
      sample_server_def Let_def)

lemma continuation_time:
  "scheduledTime (continuation tz uuid now m)
     = UTC tz (LocalTime tz (scheduledTime m)
               + (if repeat m = ''daily'' then 1
                  else if repeat m = ''weekly'' then 7
                  else DaysInMonth (MonthFromTime (LocalTime tz (scheduledTime m)))
                         (InLeapYear (LocalTime tz (scheduledTime m)))) * 86400000)"
  by (simp add: continuation_def repeat_days_def getMonth_def msPerDay_def)




lemma repeat_servers:
  "next_ref daily_server = 1" "scheduledMessages daily_server = [0]"
  "objects daily_server 0 = sample_message\<lparr>scheduledTime := 1710003600000\<rparr>"
  "next_ref monthly_server = 1" "scheduledMessages monthly_server = [0]"
  "objects monthly_server 0 = sample_message\<lparr>repeat := ''monthly''\<rparr>"
  "next_ref february_server = 1" "scheduledMessages february_server = [0]"
  "objects february_server 0
     = sample_message\<lparr>repeat := ''monthly'', scheduledTime := 1676419200000\<rparr>"
  by (simp_all add: daily_server_def monthly_server_def february_server_def update_object_def
      sample_server_def)

lemma retention_facts:
  "scheduledMessages retention_server = [0, 1, 2, 3]"
  "objects retention_server 0 = sample_message\<lparr>status := Sent, createdAt := 1709697600000\<rparr>"
  "objects retention_server 1
     = sample_message\<lparr>msg_id := ''m-2'', status := Failed, createdAt := 1709870400000\<rparr>"
  "objects retention_server (Suc 0)
     = sample_message\<lparr>msg_id := ''m-2'', status := Failed, createdAt := 1709870400000\<rparr>"
  "objects retention_server 2 = sample_message\<lparr>msg_id := ''m-3'', createdAt := 1707796800000\<rparr>"
  "objects retention_server 3
     = sample_message\<lparr>msg_id := ''m-4'', status := Failed, createdAt := 1709785800000\<rparr>"
  by (simp_all add: retention_server_def)


section \<open>Properties\<close>

text \<open>
  C1. A message dispatched while the session is not connected (\<open>isConnected\<close> is false
  when \<open>sendWhatsAppMessage\<close> is entered) fails at once: the function returns false, no
  call to the client and no wait is made, the record is \<open>failed\<close> with the error
  \<open>WhatsApp not connected\<close>, and no record is added to the store, whatever \<open>repeat\<close> is.
\<close>

theorem not_connected_fails_immediately:
  assumes "\<not> isConnected s"
  shows "fst (sendWhatsAppMessage tz env r s) = False
       \<and> snd (snd (sendWhatsAppMessage tz env r s)) = []
       \<and> status (objects (fst (snd (sendWhatsAppMessage tz env r s))) r) = Failed
       \<and> error (objects (fst (snd (sendWhatsAppMessage tz env r s))) r)
           = Some ''WhatsApp not connected''
       \<and> scheduledMessages (fst (snd (sendWhatsAppMessage tz env r s))) = scheduledMessages s
       \<and> next_ref (fst (snd (sendWhatsAppMessage tz env r s))) = next_ref s
       \<and> (\<forall>r'. r' \<noteq> r \<longrightarrow>
             objects (fst (snd (sendWhatsAppMessage tz env r s))) r' = objects s r')"
  using assms by (simp add: sendWhatsAppMessage_def update_object_def)

theorem not_connected_fails_immediately_witness:
  "\<not> isConnected (sample_server\<lparr>isConnected := False\<rparr>)
   \<and> repeat (objects (sample_server\<lparr>isConnected := False\<rparr>) 0) = ''daily''
   \<and> fst (sendWhatsAppMessage utc_zone env_ok 0 (sample_server\<lparr>isConnected := False\<rparr>)) = False
   \<and> snd (snd (sendWhatsAppMessage utc_zone env_ok 0 (sample_server\<lparr>isConnected := False\<rparr>))) = []
   \<and> status (objects (fst (snd (sendWhatsAppMessage utc_zone env_ok 0
         (sample_server\<lparr>isConnected := False\<rparr>)))) 0) = Failed
   \<and> scheduledMessages (fst (snd (sendWhatsAppMessage utc_zone env_ok 0
         (sample_server\<lparr>isConnected := False\<rparr>)))) = [0]"
proof -
  let ?s = "sample_server\<lparr>isConnected := False\<rparr>"
  have h: "\<not> isConnected ?s" by simp
  have d: "repeat (objects ?s 0) = ''daily''" and l: "scheduledMessages ?s = [0]"
    by (simp_all add: sample_server_def sample_message_def)
  show ?thesis
    using h d not_connected_fails_immediately [OF h, of utc_zone env_ok 0]
    by (simp only: l simp_thms)
qed

text \<open>
  C3. When the session is connected and each of the three attempts raises an error that
  is neither a session nor a protocol error, the wait after attempt number \<open>n\<close> is
  \<open>2000 * n\<close> ms: the run consists of the calls of attempt 1, a wait of 2 s, the calls
  of attempt 2, a wait of 4 s, the calls of attempt 3 and a wait of 6 s (this last one
  after the third attempt, before the record is marked), and the record ends \<open>failed\<close>.
\<close>

theorem generic_errors_backoff:
  assumes "isConnected s"
    and "thrown (env 1) = Some e1" and "thrown (env 2) = Some e2" and "thrown (env 3) = Some e3"
    and "generic_error e1" and "generic_error e2" and "generic_error e3"
  shows "case sendWhatsAppMessage tz env r s of
           (b, s', tr) \<Rightarrow>
             \<not> b
           \<and> tr = snd (snd (try_send tz (env 1) r s)) @ [Timeout 2000] @
                  snd (snd (try_send tz (env 2) r s)) @ [Timeout 4000] @
                  snd (snd (try_send tz (env 3) r s)) @ [Timeout 6000]
           \<and> delays tr = [2000, 4000, 6000]
           \<and> status (objects s' r) = Failed"
  using assms(1) all_generic_fail [OF assms(2-7), of tz r None s]
  by (simp add: sendWhatsAppMessage_def delays_append delays_try_send update_object_def)

theorem generic_errors_backoff_witness:
  "isConnected sample_server
   \<and> thrown (env_failing ''boom'' 1) = Some ''boom''
   \<and> thrown (env_failing ''boom'' 2) = Some ''boom''
   \<and> thrown (env_failing ''boom'' 3) = Some ''boom''
   \<and> generic_error ''boom''
   \<and> \<not> fst (sendWhatsAppMessage utc_zone (env_failing ''boom'') 0 sample_server)
   \<and> snd (snd (sendWhatsAppMessage utc_zone (env_failing ''boom'') 0 sample_server))
       = [GetState, SendMessage ''15551230000@c.us'' ''hi'', Timeout 2000,
          GetState, SendMessage ''15551230000@c.us'' ''hi'', Timeout 4000,
          GetState, SendMessage ''15551230000@c.us'' ''hi'', Timeout 6000]
   \<and> delays (snd (snd (sendWhatsAppMessage utc_zone (env_failing ''boom'') 0 sample_server)))
       = [2000, 4000, 6000]
   \<and> status (objects (fst (snd (sendWhatsAppMessage utc_zone (env_failing ''boom'') 0 sample_server))) 0)
       = Failed"
proof -
  have c: "isConnected sample_server" by (simp add: sample_server_def)
  have t: "snd (snd (try_send utc_zone (env_failing ''boom'' k) 0 sample_server))
      = [GetState, SendMessage ''15551230000@c.us'' ''hi'']" for k
    by (simp add: try_send_def env_failing_def io_ok_def sample_server_def sample_message_def
        formatPhoneNumber_def cleanPhoneChars_def isDigit_def startsWith_def)
  show ?thesis
    using c generic_boom sample_thrown(1) [of "''boom''"]
      generic_errors_backoff [where tz = utc_zone and r = 0, OF c sample_thrown(1) sample_thrown(1)
        sample_thrown(1) generic_boom generic_boom generic_boom]
    by (simp add: case_prod_beta t)
qed

text \<open>
  C4. For a message object that exists (\<open>r < next_ref s\<close>): when the delivery succeeds
  (the function returns true, which happens exactly when the session is connected and
  one of the three attempts raises nothing), the record is the old one with \<open>status\<close>
  \<open>sent\<close> and \<open>sentAt\<close> stamped with the clock of the successful attempt; exactly one
  record, the continuation, is appended to the store if \<open>repeat\<close> is daily, weekly or
  monthly, and none otherwise. When the delivery fails the store holds the same
  references as before: no continuation is created.
\<close>

theorem successful_delivery_continuation:
  assumes "r < next_ref s"
  shows "case sendWhatsAppMessage tz env r s of
           (b, s', tr) \<Rightarrow>
             (b \<longrightarrow>
                (\<exists>k. 1 \<le> k \<and> k \<le> maxRetries \<and> thrown (env k) = None
                   \<and> objects s' r = (objects s r)\<lparr>status := Sent, sentAt := Some (sentAt_clock (env k))\<rparr>
                   \<and> (if repeating (repeat (objects s r))
                       then scheduledMessages s' = scheduledMessages s @ [next_ref s]
                          \<and> next_ref s' = Suc (next_ref s)
                          \<and> objects s' (next_ref s)
                              = continuation tz (repeat_uuid (env k)) (repeat_clock (env k)) (objects s r)
                       else scheduledMessages s' = scheduledMessages s
                          \<and> next_ref s' = next_ref s)))
           \<and> (\<not> b \<longrightarrow> scheduledMessages s' = scheduledMessages s \<and> next_ref s' = next_ref s)
           \<and> (b \<longleftrightarrow> isConnected s \<and> (\<exists>k. 1 \<le> k \<and> k \<le> maxRetries \<and> thrown (env k) = None))"
proof (cases "isConnected s")
  case False
  then show ?thesis by (simp add: sendWhatsAppMessage_def update_object_def)
next
  case True
  obtain b s' tr where res: "attempts tz env r 1 None s = (b, s', tr)"
    by (cases "attempts tz env r 1 None s") auto
  have send: "sendWhatsAppMessage tz env r s = (b, s', tr)"
    using True res by (simp add: sendWhatsAppMessage_def)
  from attempts_cases [OF res]
  have "(b \<longrightarrow>
                (\<exists>k. 1 \<le> k \<and> k \<le> maxRetries \<and> thrown (env k) = None
                   \<and> objects s' r = (objects s r)\<lparr>status := Sent, sentAt := Some (sentAt_clock (env k))\<rparr>
                   \<and> (if repeating (repeat (objects s r))
                       then scheduledMessages s' = scheduledMessages s @ [next_ref s]
                          \<and> next_ref s' = Suc (next_ref s)
                          \<and> objects s' (next_ref s)
                              = continuation tz (repeat_uuid (env k)) (repeat_clock (env k)) (objects s r)
                       else scheduledMessages s' = scheduledMessages s
                          \<and> next_ref s' = next_ref s)))
           \<and> (\<not> b \<longrightarrow> scheduledMessages s' = scheduledMessages s \<and> next_ref s' = next_ref s)
           \<and> (b \<longleftrightarrow> (\<exists>k. 1 \<le> k \<and> k \<le> maxRetries \<and> thrown (env k) = None))"
  proof
    assume "b \<and> (\<exists>k x. 1 \<le> k \<and> k \<le> maxRetries \<and> thrown (env k) = None
              \<and> same_store x s \<and> s' = delivered tz (env k) r x)"
    then obtain k x where b: "b" and k: "1 \<le> k" "k \<le> maxRetries" "thrown (env k) = None"
      and x: "same_store x s" and s': "s' = delivered tz (env k) r x" by blast
    have xs: "objects x = objects s" "next_ref x = next_ref s"
        "scheduledMessages x = scheduledMessages s"
      using x by (simp_all add: same_store_def)
    have rx: "r < next_ref x" using assms xs by simp
    have rec: "objects s' r = (objects s r)\<lparr>status := Sent, sentAt := Some (sentAt_clock (env k))\<rparr>"
      using delivered_record [OF k(3) rx, of tz] by (simp add: s' xs)
    have store: "if repeating (repeat (objects s r))
                 then scheduledMessages s' = scheduledMessages s @ [next_ref s]
                    \<and> next_ref s' = Suc (next_ref s)
                    \<and> objects s' (next_ref s)
                        = continuation tz (repeat_uuid (env k)) (repeat_clock (env k)) (objects s r)
                 else scheduledMessages s' = scheduledMessages s \<and> next_ref s' = next_ref s"
    proof (cases "repeating (repeat (objects s r))")
      case True
      then have "repeating (repeat (objects x r))" by (simp add: xs)
      from delivered_store_repeating [OF k(3) this, of tz] True show ?thesis
        by (simp add: s' xs)
    next
      case False
      then have "\<not> repeating (repeat (objects x r))" by (simp add: xs)
      from delivered_store_other [OF k(3) this, of tz] False show ?thesis
        by (simp add: s' xs)
    qed
    show ?thesis using b k rec store by blast
  next
    assume "\<not> b \<and> (\<exists>e x. same_store x s
              \<and> s' = update_object r (\<lambda>m. m\<lparr>status := Failed, error := Some e\<rparr>) x)"
    then obtain e x where b: "\<not> b" and x: "same_store x s"
      and s': "s' = update_object r (\<lambda>m. m\<lparr>status := Failed, error := Some e\<rparr>) x" by blast
    have st: "scheduledMessages s' = scheduledMessages s \<and> next_ref s' = next_ref s"
      using x by (simp add: s' failed_store same_store_def)
    have "attempts tz env r 1 None s = (False, s', tr)" using res b by simp
    then have "\<not> (\<exists>k. 1 \<le> k \<and> k \<le> maxRetries \<and> thrown (env k) = None)"
      using attempts_false_all_thrown by blast
    then show ?thesis using b st by blast
  qed
  then show ?thesis using True by (simp add: send)
qed

theorem successful_delivery_continuation_witness:
  "0 < next_ref sample_server
   \<and> repeating (repeat (objects sample_server 0))
   \<and> fst (sendWhatsAppMessage utc_zone env_ok 0 sample_server)
   \<and> status (objects (fst (snd (sendWhatsAppMessage utc_zone env_ok 0 sample_server))) 0) = Sent
   \<and> sentAt (objects (fst (snd (sendWhatsAppMessage utc_zone env_ok 0 sample_server))) 0)
       = Some 1706659260000
   \<and> scheduledMessages (fst (snd (sendWhatsAppMessage utc_zone env_ok 0 sample_server))) = [0, 1]
   \<and> parentId (objects (fst (snd (sendWhatsAppMessage utc_zone env_ok 0 sample_server))) 1) = Some ''m-1''
   \<and> \<not> fst (sendWhatsAppMessage utc_zone (env_failing ''boom'') 0 sample_server)
   \<and> scheduledMessages (fst (snd (sendWhatsAppMessage utc_zone (env_failing ''boom'') 0 sample_server)))
       = [0]"
proof -
  let ?ok = "sendWhatsAppMessage utc_zone env_ok 0 sample_server"
  let ?ko = "sendWhatsAppMessage utc_zone (env_failing ''boom'') 0 sample_server"
  have rp: "repeating (repeat (objects sample_server 0))"
    by (simp add: sample_facts sample_message_def repeating_def)
  note ok = successful_delivery_continuation [where tz = utc_zone and env = env_ok, OF sample_facts(2),
      unfolded case_prod_beta]
  note ko = successful_delivery_continuation [where tz = utc_zone and env = "env_failing ''boom''",
      OF sample_facts(2), unfolded case_prod_beta]
  have b: "fst ?ok"
    using ok sample_facts(1) sample_thrown(2) maxRetries_bounds(1) by blast
  then obtain k where k: "objects (fst (snd ?ok)) 0
        = (objects sample_server 0)\<lparr>status := Sent, sentAt := Some (sentAt_clock (env_ok k))\<rparr>"
      "scheduledMessages (fst (snd ?ok)) = scheduledMessages sample_server @ [next_ref sample_server]"
      "objects (fst (snd ?ok)) (next_ref sample_server)
        = continuation utc_zone (repeat_uuid (env_ok k)) (repeat_clock (env_ok k)) (objects sample_server 0)"
    using ok rp by auto
  have nb: "\<not> fst ?ko"
    using ko sample_thrown(1) [of "''boom''"] by simp
  then have st: "scheduledMessages (fst (snd ?ko)) = scheduledMessages sample_server"
    using ko by blast
  show ?thesis
    using b nb rp k st
    by (simp add: sample_facts continuation_def sample_message_def env_ok_def io_ok_def)
qed

text \<open>
  C5. When the session is connected and all three attempts raise an error, the function
  returns false and the record is \<open>failed\<close>; its \<open>error\<close> field holds the message of the
  last error, or \<open>Unknown error\<close> when that message is empty.
\<close>

theorem exhausted_attempts_record_error:
  assumes "isConnected s"
    and "thrown (env 1) = Some e1" and "thrown (env 2) = Some e2" and "thrown (env 3) = Some e3"
  shows "case sendWhatsAppMessage tz env r s of
           (b, s', tr) \<Rightarrow>
             \<not> b
           \<and> status (objects s' r) = Failed
           \<and> error (objects s' r) = Some (if e3 = [] then ''Unknown error'' else e3)"
  using assms(1) attempts_all_fail [OF assms(2-4), of tz r None s]
  by (simp add: sendWhatsAppMessage_def update_object_def)

theorem exhausted_attempts_record_error_witness:
  "isConnected sample_server
   \<and> thrown (env_failing ''boom'' 1) = Some ''boom''
   \<and> thrown (env_failing ''boom'' 2) = Some ''boom''
   \<and> thrown (env_failing ''boom'' 3) = Some ''boom''
   \<and> \<not> fst (sendWhatsAppMessage utc_zone (env_failing ''boom'') 0 sample_server)
   \<and> status (objects (fst (snd (sendWhatsAppMessage utc_zone (env_failing ''boom'') 0 sample_server))) 0)
       = Failed
   \<and> error (objects (fst (snd (sendWhatsAppMessage utc_zone (env_failing ''boom'') 0 sample_server))) 0)
       = Some ''boom''"
  using sample_facts(1) sample_thrown(1) [of "''boom''"]
    exhausted_attempts_record_error [where tz = utc_zone and r = 0, OF sample_facts(1)
      sample_thrown(1) [of "''boom''"] sample_thrown(1) sample_thrown(1)]
  by (simp add: case_prod_beta)

text \<open>
  Without that fallback C5 does not hold: three attempts whose send is rejected with
  the empty message leave \<open>Unknown error\<close> in the \<open>error\<close> field, not the last observed
  message.
\<close>

theorem empty_error_message_counterexample:
  "isConnected sample_server
   \<and> thrown (env_failing [] 1) = Some []
   \<and> thrown (env_failing [] 2) = Some []
   \<and> thrown (env_failing [] 3) = Some []
   \<and> \<not> fst (sendWhatsAppMessage utc_zone (env_failing []) 0 sample_server)
   \<and> status (objects (fst (snd (sendWhatsAppMessage utc_zone (env_failing []) 0 sample_server))) 0)
       = Failed
   \<and> error (objects (fst (snd (sendWhatsAppMessage utc_zone (env_failing []) 0 sample_server))) 0)
       = Some ''Unknown error''
   \<and> error (objects (fst (snd (sendWhatsAppMessage utc_zone (env_failing []) 0 sample_server))) 0)
       \<noteq> Some []"
proof -
  note f = send_all_fail [where tz = utc_zone and r = 0 and env = "env_failing []",
      OF sample_facts(1) sample_thrown(1) sample_thrown(1) sample_thrown(1)]
  show ?thesis
    using sample_facts(1) sample_thrown(1) [of "[]"] f
    by simp
qed

text \<open>
  C10. For a message object that exists, when \<open>sendWhatsAppMessage\<close> returns the status
  of the record is \<open>sent\<close> or \<open>failed\<close>, and the function returns true exactly when it
  is \<open>sent\<close>. (The function always returns: the loop is bounded and the model total.)
\<close>

theorem delivery_ends_terminal:
  assumes "r < next_ref s"
  shows "(status (objects (fst (snd (sendWhatsAppMessage tz env r s))) r) = Sent
          \<or> status (objects (fst (snd (sendWhatsAppMessage tz env r s))) r) = Failed)
       \<and> (fst (sendWhatsAppMessage tz env r s)
            \<longleftrightarrow> status (objects (fst (snd (sendWhatsAppMessage tz env r s))) r) = Sent)"
proof (cases "isConnected s")
  case False
  then show ?thesis by (simp add: sendWhatsAppMessage_def update_object_def)
next
  case True
  obtain b s' tr where res: "attempts tz env r 1 None s = (b, s', tr)"
    by (cases "attempts tz env r 1 None s") auto
  have send: "sendWhatsAppMessage tz env r s = (b, s', tr)"
    using True res by (simp add: sendWhatsAppMessage_def)
  from attempts_cases [OF res]
  have "(b \<and> status (objects s' r) = Sent) \<or> (\<not> b \<and> status (objects s' r) = Failed)"
  proof
    assume "b \<and> (\<exists>k x. 1 \<le> k \<and> k \<le> maxRetries \<and> thrown (env k) = None
              \<and> same_store x s \<and> s' = delivered tz (env k) r x)"
    then obtain k x where b: "b" and k: "thrown (env k) = None" "same_store x s"
        "s' = delivered tz (env k) r x" by blast
    have "r < next_ref x" using assms k(2) by (simp add: same_store_def)
    from delivered_record [OF k(1) this, of tz] have "status (objects s' r) = Sent"
      by (simp add: k(3))
    then show ?thesis using b by simp
  next
    assume "\<not> b \<and> (\<exists>e x. same_store x s
              \<and> s' = update_object r (\<lambda>m. m\<lparr>status := Failed, error := Some e\<rparr>) x)"
    then obtain e x where b: "\<not> b"
      and x: "s' = update_object r (\<lambda>m. m\<lparr>status := Failed, error := Some e\<rparr>) x" by blast
    have "status (objects s' r) = Failed" by (simp add: x failed_store(1))
    then show ?thesis using b by simp
  qed
  then show ?thesis by (auto simp: send)
qed

theorem delivery_ends_terminal_witness:
  "0 < next_ref sample_server
   \<and> fst (sendWhatsAppMessage utc_zone env_ok 0 sample_server)
   \<and> status (objects (fst (snd (sendWhatsAppMessage utc_zone env_ok 0 sample_server))) 0) = Sent
   \<and> \<not> fst (sendWhatsAppMessage utc_zone (env_failing ''boom'') 0 sample_server)
   \<and> status (objects (fst (snd (sendWhatsAppMessage utc_zone (env_failing ''boom'') 0 sample_server))) 0)
       = Failed"
proof -
  have ok: "fst (sendWhatsAppMessage utc_zone env_ok 0 sample_server)"
    using sample_facts(1) sample_thrown(2) by (rule send_first_attempt_ok)
  have ko: "\<not> fst (sendWhatsAppMessage utc_zone (env_failing ''boom'') 0 sample_server)"
    using sample_facts(1) sample_thrown(1) sample_thrown(1) sample_thrown(1)
    by (rule send_all_fail(1))
  show ?thesis
    using ok ko sample_facts(2)
      delivery_ends_terminal [where tz = utc_zone and env = env_ok, OF sample_facts(2)]
      delivery_ends_terminal [where tz = utc_zone and env = "env_failing ''boom''", OF sample_facts(2)]
    by simp
qed

text \<open>
  C6. For a message object that exists and whose \<open>repeat\<close> is daily, weekly or monthly,
  \<open>scheduleNextRepeat\<close> appends exactly one reference, to a newly allocated record: its
  id is the value \<open>uuidv4()\<close> returned, recipient, body and \<open>repeat\<close> are the parent's,
  \<open>status\<close> is pending, \<open>createdAt\<close> is the clock and \<open>parentId\<close> is the parent's id.
  Its \<open>scheduledTime\<close> is the parent's, moved by one calendar unit in local time: the
  local time value \<open>lt\<close> of the parent's time goes to \<open>lt'\<close>, which has the same time of
  day and lies one day (daily), seven days (weekly) or the length of the parent's month
  (monthly) later; in the monthly case its calendar date is the one \<open>next_month_date\<close>
  gives, the same day of the following month or, when that month is too short, the
  day that many days after its end. The runtime reads \<open>lt'\<close> back to a time value; when
  it does so with the offset in force at the parent's time, the result is the parent's
  time plus 24 hours for each day, and across a clock change it differs by the change.
  No object that existed before, the parent included, is changed.
\<close>

theorem scheduleNextRepeat_creates_continuation:
  assumes "r < next_ref s" and "repeating (repeat (objects s r))"
  shows "let parent = objects s r;
             lt = LocalTime tz (scheduledTime parent);
             days = (if repeat parent = ''daily'' then 1
                     else if repeat parent = ''weekly'' then 7
                     else DaysInMonth (MonthFromTime lt) (InLeapYear lt));
             lt' = lt + days * 86400000;
             s' = scheduleNextRepeat tz uuid now r s
         in scheduledMessages s' = scheduledMessages s @ [next_ref s]
          \<and> next_ref s' = Suc (next_ref s)
          \<and> objects s' (next_ref s) = \<lparr>
               msg_id = uuid,
               recipient = recipient parent,
               message = message parent,
               scheduledTime = UTC tz lt',
               repeat = repeat parent,
               status = Pending,
               createdAt = now,
               updatedAt = None,
               sentAt = None,
               error = None,
               parentId = Some (msg_id parent)\<rparr>
          \<and> Day lt' = Day lt + days
          \<and> TimeWithinDay lt' = TimeWithinDay lt
          \<and> (repeat parent = ''monthly'' \<longrightarrow>
                calendar_date lt' = next_month_date (calendar_date lt))
          \<and> (offsetOfLocal tz lt' = offsetAt tz (scheduledTime parent) \<longrightarrow>
                scheduledTime (objects s' (next_ref s)) = scheduledTime parent + days * 86400000)
          \<and> (\<forall>r'. r' < next_ref s \<longrightarrow> objects s' r' = objects s r')
          \<and> objects s' r = parent"
proof -
  let ?t = "scheduledTime (objects s r)"
  let ?lt = "LocalTime tz ?t"
  let ?days = "if repeat (objects s r) = ''daily'' then 1
               else if repeat (objects s r) = ''weekly'' then 7
               else DaysInMonth (MonthFromTime ?lt) (InLeapYear ?lt)"
  let ?s' = "scheduleNextRepeat tz uuid now r s"
  have e: "?s' = push_new (continuation tz uuid now (objects s r)) s"
    using assms(2) by (rule scheduleNextRepeat_repeating)
  have new: "objects ?s' (next_ref s) = continuation tz uuid now (objects s r)"
    by (simp add: e push_new_facts)
  have tm: "scheduledTime (objects ?s' (next_ref s)) = UTC tz (?lt + ?days * 86400000)"
    unfolding new continuation_time by simp
  have rec: "objects ?s' (next_ref s) = \<lparr>
               msg_id = uuid,
               recipient = recipient (objects s r),
               message = message (objects s r),
               scheduledTime = UTC tz (?lt + ?days * 86400000),
               repeat = repeat (objects s r),
               status = Pending,
               createdAt = now,
               updatedAt = None,
               sentAt = None,
               error = None,
               parentId = Some (msg_id (objects s r))\<rparr>"
    using tm by (simp add: new continuation_def)
  have month: "repeat (objects s r) = ''monthly'' \<longrightarrow>
      calendar_date (?lt + ?days * 86400000) = next_month_date (calendar_date ?lt)"
    using next_month_fields(1) [of ?lt] by (simp add: msPerDay_def)
  have exact: "offsetOfLocal tz (?lt + ?days * 86400000) = offsetAt tz ?t \<longrightarrow>
      scheduledTime (objects ?s' (next_ref s)) = ?t + ?days * 86400000"
    unfolding tm using same_offset_exact [of tz ?t "?days * 86400000"] by blast
  have old: "\<forall>r'. r' < next_ref s \<longrightarrow> objects ?s' r' = objects s r'"
    by (simp add: e push_new_facts)
  show ?thesis
    unfolding Let_def
    using rec month exact old assms(1) add_days [of ?lt ?days]
    by (simp add: e push_new_facts(1,2))
qed

theorem scheduleNextRepeat_creates_continuation_witness:
  "0 < next_ref daily_server
   \<and> repeating (repeat (objects daily_server 0))
   \<and> scheduledTime (objects daily_server 0) = 1710003600000
   \<and> scheduledMessages (scheduleNextRepeat dst_zone ''m-2'' 1710003660000 0 daily_server) = [0, 1]
   \<and> msg_id (objects (scheduleNextRepeat dst_zone ''m-2'' 1710003660000 0 daily_server) 1) = ''m-2''
   \<and> status (objects (scheduleNextRepeat dst_zone ''m-2'' 1710003660000 0 daily_server) 1) = Pending
   \<and> createdAt (objects (scheduleNextRepeat dst_zone ''m-2'' 1710003660000 0 daily_server) 1)
       = 1710003660000
   \<and> parentId (objects (scheduleNextRepeat dst_zone ''m-2'' 1710003660000 0 daily_server) 1)
       = Some ''m-1''
   \<and> objects (scheduleNextRepeat dst_zone ''m-2'' 1710003660000 0 daily_server) 0
       = objects daily_server 0
   \<and> scheduledTime (objects (scheduleNextRepeat dst_zone ''m-2'' 1710003660000 0 daily_server) 1)
       = 1710003600000 + 23 * 3600000
   \<and> scheduledTime (objects (scheduleNextRepeat utc_zone ''m-2'' 1710003660000 0 daily_server) 1)
       = 1710003600000 + 24 * 3600000
   \<and> 0 < next_ref monthly_server
   \<and> repeating (repeat (objects monthly_server 0))
   \<and> calendar_date (scheduledTime (objects monthly_server 0)) = (2024, 0, 31)
   \<and> calendar_date (scheduledTime
         (objects (scheduleNextRepeat utc_zone ''m-2'' 1706659260001 0 monthly_server) 1))
       = (2024, 2, 2)
   \<and> scheduledTime (objects (scheduleNextRepeat utc_zone ''m-2'' 1706659260001 0 monthly_server) 1)
       = 1709337600000
   \<and> 0 < next_ref february_server
   \<and> repeating (repeat (objects february_server 0))
   \<and> calendar_date (scheduledTime (objects february_server 0)) = (2023, 1, 15)
   \<and> calendar_date (scheduledTime
         (objects (scheduleNextRepeat utc_zone ''m-2'' 1676419260000 0 february_server) 1))
       = (2023, 2, 15)
   \<and> scheduledTime (objects (scheduleNextRepeat utc_zone ''m-2'' 1676419260000 0 february_server) 1)
       = 1678838400000"
proof -
  have n: "0 < next_ref daily_server" "0 < next_ref monthly_server" "0 < next_ref february_server"
    by (simp_all add: repeat_servers)
  have rp: "repeating (repeat (objects daily_server 0))"
    "repeating (repeat (objects monthly_server 0))"
    "repeating (repeat (objects february_server 0))"
    by (simp_all add: repeat_servers sample_message_def repeating_def)
  have md: "MonthFromTime 1706659200000 = 0" "MonthFromTime 1676419200000 = 1"
    using sample_dates(1,4) by (simp_all add: calendar_date_def)
  note daily_dst = scheduleNextRepeat_creates_continuation [where tz = dst_zone
      and uuid = "''m-2''" and now = 1710003660000, OF n(1) rp(1), unfolded Let_def]
  note daily_utc = scheduleNextRepeat_creates_continuation [where tz = utc_zone
      and uuid = "''m-2''" and now = 1710003660000, OF n(1) rp(1), unfolded Let_def]
  note monthly = scheduleNextRepeat_creates_continuation [where tz = utc_zone
      and uuid = "''m-2''" and now = 1706659260001, OF n(2) rp(2), unfolded Let_def]
  note february = scheduleNextRepeat_creates_continuation [where tz = utc_zone
      and uuid = "''m-2''" and now = 1676419260000, OF n(3) rp(3), unfolded Let_def]
  have a: "scheduledMessages (scheduleNextRepeat dst_zone ''m-2'' 1710003660000 0 daily_server) = [0, 1]
   \<and> msg_id (objects (scheduleNextRepeat dst_zone ''m-2'' 1710003660000 0 daily_server) 1) = ''m-2''
   \<and> status (objects (scheduleNextRepeat dst_zone ''m-2'' 1710003660000 0 daily_server) 1) = Pending
   \<and> createdAt (objects (scheduleNextRepeat dst_zone ''m-2'' 1710003660000 0 daily_server) 1)
       = 1710003660000
   \<and> parentId (objects (scheduleNextRepeat dst_zone ''m-2'' 1710003660000 0 daily_server) 1)
       = Some ''m-1''
   \<and> objects (scheduleNextRepeat dst_zone ''m-2'' 1710003660000 0 daily_server) 0
       = objects daily_server 0
   \<and> scheduledTime (objects (scheduleNextRepeat dst_zone ''m-2'' 1710003660000 0 daily_server) 1)
       = 1710003600000 + 23 * 3600000"
    using daily_dst
    by (simp add: repeat_servers sample_message_def LocalTime_def UTC_def dst_zone_def)
  have b: "scheduledTime (objects (scheduleNextRepeat utc_zone ''m-2'' 1710003660000 0 daily_server) 1)
       = 1710003600000 + 24 * 3600000"
    using daily_utc
    by (simp add: repeat_servers sample_message_def LocalTime_def UTC_def utc_zone_def)
  have c: "scheduledTime (objects (scheduleNextRepeat utc_zone ''m-2'' 1706659260001 0 monthly_server) 1)
       = 1709337600000
    \<and> calendar_date (1706659200000 + 31 * 86400000) = next_month_date (calendar_date 1706659200000)"
    using monthly
    by (simp add: repeat_servers sample_message_def LocalTime_def UTC_def utc_zone_def
        md sample_dates(2) DaysInMonth_def)
  have c': "calendar_date 1709337600000 = (2024, 2, 2)"
    using c by (simp add: sample_dates(1) next_month_date_def LeapFlag_def DaysInYear_def
        DaysInMonth_def)
  have d: "scheduledTime (objects (scheduleNextRepeat utc_zone ''m-2'' 1676419260000 0 february_server) 1)
       = 1678838400000
    \<and> calendar_date (1676419200000 + 28 * 86400000) = next_month_date (calendar_date 1676419200000)"
    using february
    by (simp add: repeat_servers sample_message_def LocalTime_def UTC_def utc_zone_def
        md sample_dates(5) DaysInMonth_def)
  have d': "calendar_date 1678838400000 = (2023, 2, 15)"
    using d by (simp add: sample_dates(4) next_month_date_def LeapFlag_def DaysInYear_def
        DaysInMonth_def)
  show ?thesis
    using n rp a b c c' d d'
    by (simp add: repeat_servers sample_message_def sample_dates(1,4))
qed



text \<open>
  C8. The cleanup run at the instant \<open>now\<close> keeps the stored references in their order,
  except those to a sent or failed record whose \<open>createdAt\<close> is not later than
  \<open>sevenDaysAgo\<close>, the instant that has the local time of \<open>now\<close> seven calendar days
  back (a record created exactly at that instant is removed). No record is changed, and
  a pending record stays whatever its age. When the local offsets at the two instants
  differ by less than a day, \<open>sevenDaysAgo\<close> lies between eight and six days before
  \<open>now\<close>: a sent or failed record created eight days before or earlier is removed, and
  a record created six days before or later stays. Across a clock change the window is
  not 168 hours: in \<open>dst_zone\<close> the example removes a failed record that is 6 days 23
  hours and 30 minutes old, which it keeps in \<open>utc_zone\<close>.
\<close>

theorem cleanup_removes_old_terminal:
  "let sevenDaysAgo = UTC tz (LocalTime tz now - 7 * 86400000);
       s' = cleanup tz now s
   in scheduledMessages s'
        = filter (\<lambda>r. \<not> ((status (objects s r) = Sent \<or> status (objects s r) = Failed)
                          \<and> createdAt (objects s r) \<le> sevenDaysAgo))
            (scheduledMessages s)
    \<and> objects s' = objects s
    \<and> next_ref s' = next_ref s
    \<and> (\<forall>r \<in> set (scheduledMessages s).
          status (objects s r) = Pending \<longrightarrow> r \<in> set (scheduledMessages s'))
    \<and> (\<bar>offsetAt tz now - offsetOfLocal tz (LocalTime tz now - 7 * 86400000)\<bar> < 86400000 \<longrightarrow>
          now - 8 * 86400000 < sevenDaysAgo
        \<and> sevenDaysAgo < now - 6 * 86400000
        \<and> (\<forall>r \<in> set (scheduledMessages s).
              (status (objects s r) = Sent \<or> status (objects s r) = Failed)
              \<and> createdAt (objects s r) \<le> now - 8 * 86400000
              \<longrightarrow> r \<notin> set (scheduledMessages s'))
        \<and> (\<forall>r \<in> set (scheduledMessages s).
              now - 6 * 86400000 \<le> createdAt (objects s r)
              \<longrightarrow> r \<in> set (scheduledMessages s')))"
proof -
  let ?T = "UTC tz (LocalTime tz now - 7 * 86400000)"
  have d: "setDate tz now (getDate tz now - 7) = ?T"
    using setDate_getDate [of tz now "- 7"] by (simp add: msPerDay_def)
  have p: "(\<lambda>r. status (objects s r) = Pending \<or> ?T < createdAt (objects s r))
      = (\<lambda>r. \<not> ((status (objects s r) = Sent \<or> status (objects s r) = Failed)
                 \<and> createdAt (objects s r) \<le> ?T))"
  proof (rule ext)
    fix r
    show "(status (objects s r) = Pending \<or> ?T < createdAt (objects s r))
      = (\<not> ((status (objects s r) = Sent \<or> status (objects s r) = Failed)
                 \<and> createdAt (objects s r) \<le> ?T))"
      by (cases "status (objects s r)") auto
  qed
  have keep: "scheduledMessages (cleanup tz now s)
      = filter (\<lambda>r. status (objects s r) = Pending \<or> ?T < createdAt (objects s r))
          (scheduledMessages s)"
    by (simp add: cleanup_def Let_def d)
  have flt: "scheduledMessages (cleanup tz now s)
      = filter (\<lambda>r. \<not> ((status (objects s r) = Sent \<or> status (objects s r) = Failed)
                          \<and> createdAt (objects s r) \<le> ?T))
            (scheduledMessages s)"
    using keep by (simp only: p)
  have same: "objects (cleanup tz now s) = objects s" "next_ref (cleanup tz now s) = next_ref s"
    by (simp_all add: cleanup_def Let_def)
  have T: "?T = now - 7 * 86400000
      + (offsetAt tz now - offsetOfLocal tz (LocalTime tz now - 7 * 86400000))"
    by (simp add: UTC_def LocalTime_def)
  have pend: "\<forall>r \<in> set (scheduledMessages s).
          status (objects s r) = Pending \<longrightarrow> r \<in> set (scheduledMessages (cleanup tz now s))"
    by (simp add: keep)
  have win: "\<bar>offsetAt tz now - offsetOfLocal tz (LocalTime tz now - 7 * 86400000)\<bar> < 86400000 \<longrightarrow>
          now - 8 * 86400000 < ?T
        \<and> ?T < now - 6 * 86400000
        \<and> (\<forall>r \<in> set (scheduledMessages s).
              (status (objects s r) = Sent \<or> status (objects s r) = Failed)
              \<and> createdAt (objects s r) \<le> now - 8 * 86400000
              \<longrightarrow> r \<notin> set (scheduledMessages (cleanup tz now s)))
        \<and> (\<forall>r \<in> set (scheduledMessages s).
              now - 6 * 86400000 \<le> createdAt (objects s r)
              \<longrightarrow> r \<in> set (scheduledMessages (cleanup tz now s)))"
  proof
    assume a: "\<bar>offsetAt tz now - offsetOfLocal tz (LocalTime tz now - 7 * 86400000)\<bar> < 86400000"
    have lo: "now - 8 * 86400000 < ?T" and hi: "?T < now - 6 * 86400000"
      using a unfolding T by simp_all
    have old: "\<forall>r \<in> set (scheduledMessages s).
              (status (objects s r) = Sent \<or> status (objects s r) = Failed)
              \<and> createdAt (objects s r) \<le> now - 8 * 86400000
              \<longrightarrow> r \<notin> set (scheduledMessages (cleanup tz now s))"
      using lo by (auto simp: keep)
    have young: "\<forall>r \<in> set (scheduledMessages s).
              now - 6 * 86400000 \<le> createdAt (objects s r)
              \<longrightarrow> r \<in> set (scheduledMessages (cleanup tz now s))"
      using hi by (auto simp: keep)
    show "now - 8 * 86400000 < ?T
        \<and> ?T < now - 6 * 86400000
        \<and> (\<forall>r \<in> set (scheduledMessages s).
              (status (objects s r) = Sent \<or> status (objects s r) = Failed)
              \<and> createdAt (objects s r) \<le> now - 8 * 86400000
              \<longrightarrow> r \<notin> set (scheduledMessages (cleanup tz now s)))
        \<and> (\<forall>r \<in> set (scheduledMessages s).
              now - 6 * 86400000 \<le> createdAt (objects s r)
              \<longrightarrow> r \<in> set (scheduledMessages (cleanup tz now s)))"
      using lo hi old young by blast
  qed
  show ?thesis
    unfolding Let_def using flt same pend win by blast
qed

theorem cleanup_removes_old_terminal_witness:
  "\<bar>offsetAt dst_zone 1710388800000
      - offsetOfLocal dst_zone (LocalTime dst_zone 1710388800000 - 7 * 86400000)\<bar> < 86400000
   \<and> UTC dst_zone (LocalTime dst_zone 1710388800000 - 7 * 86400000)
       = 1710388800000 - 7 * 86400000 + 3600000
   \<and> scheduledMessages retention_server = [0, 1, 2, 3]
   \<and> status (objects retention_server 0) = Sent
   \<and> createdAt (objects retention_server 0) = 1710388800000 - 8 * 86400000
   \<and> status (objects retention_server 1) = Failed
   \<and> createdAt (objects retention_server 1) = 1710388800000 - 6 * 86400000
   \<and> status (objects retention_server 2) = Pending
   \<and> createdAt (objects retention_server 2) = 1710388800000 - 30 * 86400000
   \<and> status (objects retention_server 3) = Failed
   \<and> createdAt (objects retention_server 3) = 1710388800000 - 7 * 86400000 + 1800000
   \<and> scheduledMessages (cleanup dst_zone 1710388800000 retention_server) = [1, 2]
   \<and> scheduledMessages (cleanup utc_zone 1710388800000 retention_server) = [1, 2, 3]"
  using cleanup_removes_old_terminal [of dst_zone 1710388800000 retention_server]
    cleanup_removes_old_terminal [of utc_zone 1710388800000 retention_server]
  by (simp add: Let_def retention_facts sample_message_def LocalTime_def UTC_def
      dst_zone_def utc_zone_def)

text \<open>
  C2. \<open>POST /api/schedule\<close> rejects a \<open>scheduledTime\<close> that is not later than the clock
  (\<open>post_schedule_rejects_non_future\<close>, \<open>post_schedule_created_in_future\<close>), but
  \<open>PUT /api/messages/:id\<close> never compares the time with the clock
  (\<open>put_message_sets_any_time\<close>). At the clock \<open>1706659200000\<close> an edit of the pending
  sample message to the instant \<open>1000\<close> succeeds and stores that past time; a creation
  request with the same time, or with the time of the clock itself, is answered with
  status 400 (\<open>post_schedule_rejects_sample\<close>).
\<close>

theorem put_message_accepts_past_time:
  "status (objects sample_server 0) = Pending
   \<and> (1000 :: int) < 1706659200000
   \<and> fst (put_message 1706659200000 ''m-1'' (time_only (Instant 1000)) sample_server)
       = Success_record (sample_message\<lparr>scheduledTime := 1000, updatedAt := Some 1706659200000\<rparr>)
   \<and> scheduledTime (objects (snd (put_message 1706659200000 ''m-1'' (time_only (Instant 1000))
         sample_server)) 0) = 1000"
proof -
  have p: "status (objects sample_server (scheduledMessages sample_server ! 0)) = Pending"
    by (simp add: sample_server_def sample_message_def)
  show ?thesis
    using put_message_sets_any_time [OF sample_find p, of 1706659200000 1000]
    by (simp add: sample_facts sample_message_def)
qed

text \<open>
  C9. \<open>formatPhoneNumber\<close> keeps every plus sign but one leading one: for the string
  \<open>+1+2345678901\<close> the part before \<open>@c.us\<close> is \<open>1+2345678901\<close>, whose second character
  is not a digit. \<open>POST /api/schedule\<close> accepts that string as a recipient and stores it
  unchanged (\<open>post_schedule_stores_inner_plus\<close>). The result is made of digits only when
  the cleaned string has no plus sign after its first character
  (\<open>formatPhoneNumber_digits\<close>).
\<close>

theorem formatPhoneNumber_keeps_inner_plus:
  "formatPhoneNumber ''+1+2345678901'' = ''1+2345678901@c.us''
   \<and> \<not> isDigit (''1+2345678901'' ! 1)"
  by (simp add: formatPhoneNumber_def cleanPhoneChars_def isDigit_def startsWith_def)

end
